theory Spec2Isabelle
  imports Complex_Main
begin

text \<open>
  The MyBAS tracker derives, from a static GTFS feed and a simulated time of day, the
  vehicles that are running and where they are. This theory embeds the functions of
  \<open>src/utils/gtfs.js\<close> (times and calendar, geometry, the path interpolator, the
  stop-schedule index) and the trip simulation of \<open>src/components/Map.jsx\<close>, and proves
  what the specification says about them.
\<close>

section \<open>JavaScript values used by the tracker\<close>

text \<open>
  The tracker computes with JavaScript numbers. A finite number is modelled as a real
  (no rounding, overflow or underflow); the three non-finite values are kept apart,
  because the code can produce them (a division by a zero distance, a time string
  that does not parse) and because every comparison with \<open>NaN\<close> is false.
  Signed zeros are not distinguished: the only divisors that can be zero here are a
  distance and a difference of times.

  A coordinate can also be \<open>undefined\<close>, when it is read from an object that has no such
  field. It is kept as a fifth value: an arithmetic operation converts it to \<open>NaN\<close>, and
  a comparison with it is false.
\<close>

datatype jsnum = Fin real | NaN | PosInf | NegInf | Undefined

datatype error = TypeError

fun js_lt :: "jsnum \<Rightarrow> jsnum \<Rightarrow> bool" where
  "js_lt (Fin a) (Fin b) = (a < b)"
| "js_lt (Fin a) PosInf = True"
| "js_lt NegInf (Fin b) = True"
| "js_lt NegInf PosInf = True"
| "js_lt _ _ = False"

fun js_le :: "jsnum \<Rightarrow> jsnum \<Rightarrow> bool" where
  "js_le (Fin a) (Fin b) = (a \<le> b)"
| "js_le NaN _ = False"
| "js_le _ NaN = False"
| "js_le Undefined _ = False"
| "js_le _ Undefined = False"
| "js_le NegInf _ = True"
| "js_le _ PosInf = True"
| "js_le _ _ = False"


definition js_ge :: "jsnum \<Rightarrow> jsnum \<Rightarrow> bool" where
  "js_ge a b = js_le b a"

fun js_neg :: "jsnum \<Rightarrow> jsnum" where
  "js_neg (Fin a) = Fin (- a)"
| "js_neg NaN = NaN"
| "js_neg Undefined = NaN"
| "js_neg PosInf = NegInf"
| "js_neg NegInf = PosInf"

fun js_add :: "jsnum \<Rightarrow> jsnum \<Rightarrow> jsnum" where
  "js_add (Fin a) (Fin b) = Fin (a + b)"
| "js_add NaN _ = NaN"
| "js_add _ NaN = NaN"
| "js_add Undefined _ = NaN"
| "js_add _ Undefined = NaN"
| "js_add PosInf NegInf = NaN"
| "js_add NegInf PosInf = NaN"
| "js_add PosInf _ = PosInf"
| "js_add NegInf _ = NegInf"
| "js_add (Fin a) b = b"

definition js_sub :: "jsnum \<Rightarrow> jsnum \<Rightarrow> jsnum" where
  "js_sub a b = js_add a (js_neg b)"

definition signed_inf :: "bool \<Rightarrow> jsnum" where
  "signed_inf positive = (if positive then PosInf else NegInf)"

fun js_mul :: "jsnum \<Rightarrow> jsnum \<Rightarrow> jsnum" where
  "js_mul (Fin a) (Fin b) = Fin (a * b)"
| "js_mul NaN _ = NaN"
| "js_mul _ NaN = NaN"
| "js_mul Undefined _ = NaN"
| "js_mul _ Undefined = NaN"
| "js_mul (Fin a) PosInf = (if a = 0 then NaN else signed_inf (0 < a))"
| "js_mul (Fin a) NegInf = (if a = 0 then NaN else signed_inf (a < 0))"
| "js_mul PosInf (Fin b) = (if b = 0 then NaN else signed_inf (0 < b))"
| "js_mul NegInf (Fin b) = (if b = 0 then NaN else signed_inf (b < 0))"
| "js_mul PosInf PosInf = PosInf"
| "js_mul NegInf NegInf = PosInf"
| "js_mul PosInf NegInf = NegInf"
| "js_mul NegInf PosInf = NegInf"

fun js_div :: "jsnum \<Rightarrow> jsnum \<Rightarrow> jsnum" where
  "js_div (Fin a) (Fin b) =
     (if b \<noteq> 0 then Fin (a / b)
      else if a = 0 then NaN
      else signed_inf (0 < a))"
| "js_div NaN _ = NaN"
| "js_div _ NaN = NaN"
| "js_div Undefined _ = NaN"
| "js_div _ Undefined = NaN"
| "js_div (Fin a) _ = Fin 0"
| "js_div PosInf (Fin b) = signed_inf (0 \<le> b)"
| "js_div NegInf (Fin b) = signed_inf (b < 0)"
| "js_div _ _ = NaN"

text \<open>
  A time of day computed by \<open>timeToSeconds\<close> is an integer number of seconds, or
  \<open>NaN\<close> when a field is not a number: \<open>int option\<close> with \<open>None\<close> for \<open>NaN\<close>.
\<close>

fun num_of :: "int option \<Rightarrow> jsnum" where
  "num_of None = NaN"
| "num_of (Some i) = Fin (real_of_int i)"

subsection \<open>Strings\<close>

text \<open>
  \<open>a < b\<close> on two JavaScript strings compares them code unit by code unit; a proper
  prefix is smaller. (The strings compared here are dates in ASCII digits.)
\<close>

fun str_less :: "string \<Rightarrow> string \<Rightarrow> bool" where
  "str_less [] [] = False"
| "str_less [] (y # ys) = True"
| "str_less (x # xs) [] = False"
| "str_less (x # xs) (y # ys) =
     (if (of_char x :: nat) < of_char y then True
      else if (of_char y :: nat) < of_char x then False
      else str_less xs ys)"

text \<open>\<open>s.split(sep)\<close> for a one-character separator: always at least one field.\<close>

fun split_on :: "char \<Rightarrow> string \<Rightarrow> string list" where
  "split_on sep [] = [[]]"
| "split_on sep (c # cs) =
     (if c = sep then [] # split_on sep cs
      else (case split_on sep cs of
              [] \<Rightarrow> [[c]]
            | f # fs \<Rightarrow> (c # f) # fs))"

definition is_digit :: "char \<Rightarrow> bool" where
  "is_digit c = (48 \<le> (of_char c :: nat) \<and> (of_char c :: nat) \<le> 57)"

definition digit_val :: "char \<Rightarrow> nat" where
  "digit_val c = of_char c - 48"

definition dec :: "string \<Rightarrow> nat" where
  "dec s = foldl (\<lambda>acc c. 10 * acc + digit_val c) 0 s"

text \<open>
  \<open>Number(s)\<close> on a string. The model covers the strings made of decimal digits only,
  which is what the fields of a GTFS time are (the empty string converts to 0, as in
  JavaScript). Every other string is mapped to \<open>None\<close>, that is \<open>NaN\<close>; JavaScript
  would still convert some of them (surrounding white space, a sign, a fraction, an
  exponent, a hexadecimal literal), so the statements about the engine are made for
  times that are numbers.
\<close>

definition Number :: "string \<Rightarrow> int option" where
  "Number s = (if list_all is_digit s then Some (int (dec s)) else None)"

text \<open>
  \<open>arr.slice(start, end)\<close> with integer arguments; a negative argument counts from
  the end of the array.
\<close>

definition slice :: "'a list \<Rightarrow> int \<Rightarrow> int \<Rightarrow> 'a list" where
  "slice xs start end =
     (let len = int (length xs);
          k = (if start < 0 then max (len + start) 0 else min start len);
          final = (if end < 0 then max (len + end) 0 else min end len)
      in take (nat (final - k)) (drop (nat k) xs))"

text \<open>
  \<open>arr.sort(cmp)\<close> is stable: elements that compare equal keep their order. It is
  modelled as a stable insertion sort driven by the comparator, where a new element goes
  before the first element it is strictly smaller than. A comparator result of \<open>NaN\<close>
  counts as "not smaller". For a comparator that is not a consistent order (which here
  means a \<open>NaN\<close> time) ECMAScript leaves the resulting order to the implementation, so
  statements about the order are made for numeric times only.
\<close>

fun insert_by :: "('a \<Rightarrow> 'a \<Rightarrow> jsnum) \<Rightarrow> 'a \<Rightarrow> 'a list \<Rightarrow> 'a list" where
  "insert_by cmp x [] = [x]"
| "insert_by cmp x (y # ys) =
     (if js_lt (cmp x y) (Fin 0) then x # y # ys else y # insert_by cmp x ys)"

definition array_sort :: "('a \<Rightarrow> 'a \<Rightarrow> jsnum) \<Rightarrow> 'a list \<Rightarrow> 'a list" where
  "array_sort cmp xs = foldl (\<lambda>sorted x. insert_by cmp x sorted) [] xs"

section \<open>Data model (the JSON tables of \<open>public/data\<close>)\<close>

record stop =
  name :: string
  lat :: real
  lon :: real

type_synonym point = "real \<times> real"

record route =
  route_id :: string
  shortName :: string
  longName :: string
  color :: string
  textColor :: string

record stop_time =
  stopId :: string
  arrival :: string
  departure :: string

record trip =
  tripId :: string
  serviceId :: string
  shapeId :: string
  headsign :: string
  stops :: "stop_time list"

record service =
  monday :: bool
  tuesday :: bool
  wednesday :: bool
  thursday :: bool
  friday :: bool
  saturday :: bool
  sunday :: bool
  startDate :: string
  endDate :: string

text \<open>
  A \<open>Date\<close> object holds one instant, its time value: the milliseconds since
  1 January 1970, 00:00 UTC. Local time is the time value shifted by the offset of the
  time zone of the machine at that instant, here in minutes east of UTC (480 in
  Malaysia). The tracker observes a date through two methods: \<open>toISOString()\<close>, the
  UTC date and time \<open>YYYY-MM-DDTHH:mm:ss.sssZ\<close>, and \<open>getDay()\<close>, the weekday in local
  time, 0 for Sunday.
\<close>

record jsdate =
  timeValue :: int
  localOffset :: int

text \<open>
  The loaded data set. The entries of an object used as a table are a map; \<open>schedule\<close>
  is also traversed with \<open>Object.keys\<close>, so it is the list of its (route id, trips)
  entries in key order. What \<open>table[id]\<close> finds beyond the entries, the members that
  every object inherits, is modelled for the stops table (\<open>stopsGet\<close> below). In the
  calendar an inherited member has no dates and no day flags, so that \<open>isServiceActive\<close>
  answers \<open>undefined\<close>, which is false as for an absent id. The ids looked up in the
  shapes table and in the stop-schedule index are taken not to name an inherited member. The field \<open>stops\<close> of the data set is called \<open>stopTable\<close> here, since a
  trip has a field \<open>stops\<close> too. The stop-times of the feed also carry their sequence
  number \<open>seq\<close>, which nothing reads.
\<close>

record gtfs_data =
  routes :: "route list"
  stopTable :: "string \<rightharpoonup> stop"
  shapes :: "string \<rightharpoonup> point list"
  schedule :: "(string \<times> trip list) list"
  calendar :: "string \<rightharpoonup> service"

section \<open>Time and calendar utility (\<open>src/utils/gtfs.js\<close>)\<close>

definition timeToSeconds :: "string \<Rightarrow> int option" where
  "timeToSeconds timeStr =
     (case map Number (split_on CHR '':'' timeStr) of
        h # m # s # _ \<Rightarrow>
          (case (h, m, s) of
             (Some h', Some m', Some s') \<Rightarrow> Some (h' * 3600 + m' * 60 + s')
           | _ \<Rightarrow> None)
      | _ \<Rightarrow> None)"

text \<open>
  The times of a day as the feed writes them: two digits for each field, minutes and
  seconds below 60. (Hours are not bounded: a feed may write 25:10:00.)
\<close>

definition two_digit_hms :: "string \<Rightarrow> bool" where
  "two_digit_hms s =
     (case s of
        [h1, h2, c1, m1, m2, c2, s1, s2] \<Rightarrow>
          c1 = CHR '':'' \<and> c2 = CHR '':''
          \<and> list_all is_digit [h1, h2, m1, m2, s1, s2]
          \<and> dec [m1, m2] < 60 \<and> dec [s1, s2] < 60
      | _ \<Rightarrow> False)"

text \<open>
  The day number and the weekday of a time value, as ECMAScript defines them
  (\<open>Day(t) = floor(t / msPerDay)\<close>, \<open>WeekDay(t) = (Day(t) + 4) mod 7\<close>,
  \<open>LocalTime(t) = t + offset\<close>); \<open>div\<close> and \<open>mod\<close> on integers round down.
\<close>

definition msPerDay :: int where
  "msPerDay = 86400000"

definition Day :: "int \<Rightarrow> int" where
  "Day t = t div msPerDay"

definition WeekDay :: "int \<Rightarrow> nat" where
  "WeekDay t = nat ((Day t + 4) mod 7)"

definition LocalTime :: "jsdate \<Rightarrow> int" where
  "LocalTime date = timeValue date + localOffset date * 60000"

definition getDay :: "jsdate \<Rightarrow> nat" where
  "getDay date = WeekDay (LocalTime date)"

text \<open>
  The year, the month (1 to 12) and the day of the month (1 to 31) of a day number in
  the Gregorian calendar, computed from the position of the day in its cycle of 400
  years (146097 days) counted from 1 March.
\<close>

definition civil :: "int \<Rightarrow> int \<times> nat \<times> nat" where
  "civil day =
     (let z = day + 719468;
          era = z div 146097;
          doe = z mod 146097;
          yoe = (doe - doe div 1460 + doe div 36524 - doe div 146096) div 365;
          doy = doe - (365 * yoe + yoe div 4 - yoe div 100);
          mp = (5 * doy + 2) div 153;
          d = doy - (153 * mp + 2) div 5 + 1;
          m = (if mp < 10 then mp + 3 else mp - 9);
          y = yoe + era * 400 + (if m \<le> 2 then 1 else 0)
      in (y, nat m, nat d))"

text \<open>A number written with two, three, four or six decimal digits.\<close>

definition digit_char :: "nat \<Rightarrow> char" where
  "digit_char n = ''0123456789'' ! (n mod 10)"

definition pad2 :: "nat \<Rightarrow> string" where
  "pad2 n = [digit_char (n div 10), digit_char n]"

definition pad3 :: "nat \<Rightarrow> string" where
  "pad3 n = digit_char (n div 100) # pad2 n"

definition pad4 :: "nat \<Rightarrow> string" where
  "pad4 n = digit_char (n div 1000) # pad3 n"

definition pad6 :: "nat \<Rightarrow> string" where
  "pad6 n = digit_char (n div 100000) # digit_char (n div 10000) # pad4 n"

text \<open>
  \<open>date.toISOString()\<close>: the fields of the time value in UTC. A year outside 0 to 9999
  is written with a sign and six digits.
\<close>

definition yearString :: "int \<Rightarrow> string" where
  "yearString y =
     (if 0 \<le> y \<and> y \<le> 9999 then pad4 (nat y)
      else (if y < 0 then CHR ''-'' else CHR ''+'') # pad6 (nat \<bar>y\<bar>))"

definition toISOString :: "jsdate \<Rightarrow> string" where
  "toISOString date =
     (let t = timeValue date;
          (y, m, d) = civil (Day t);
          ms = nat (t mod msPerDay)
      in yearString y @ ''-'' @ pad2 m @ ''-'' @ pad2 d @ ''T''
         @ pad2 (ms div 3600000) @ '':'' @ pad2 (ms div 60000 mod 60) @ '':''
         @ pad2 (ms div 1000 mod 60) @ ''.'' @ pad3 (ms mod 1000) @ ''Z'')"

text \<open>\<open>date.toISOString().split('T')[0].replace(/-/g, '')\<close>\<close>

definition nowStr :: "jsdate \<Rightarrow> string" where
  "nowStr date =
     filter (\<lambda>c. c \<noteq> CHR ''-'')
       (case split_on CHR ''T'' (toISOString date) of [] \<Rightarrow> [] | f # _ \<Rightarrow> f)"

text \<open>
  \<open>service[days[day]]\<close>: the flag of the weekday; an index outside 0..6 reads
  \<open>undefined\<close>, which is falsy.
\<close>

definition day_flag :: "service \<Rightarrow> nat \<Rightarrow> bool" where
  "day_flag service day =
     (if day = 0 then sunday service
      else if day = 1 then monday service
      else if day = 2 then tuesday service
      else if day = 3 then wednesday service
      else if day = 4 then thursday service
      else if day = 5 then friday service
      else if day = 6 then saturday service
      else False)"

definition isServiceActive :: "string \<Rightarrow> (string \<rightharpoonup> service) \<Rightarrow> jsdate \<Rightarrow> bool" where
  "isServiceActive sid cal date =
     (case cal sid of
        None \<Rightarrow> False
      | Some service \<Rightarrow>
          if str_less (nowStr date) (startDate service)
             \<or> str_less (endDate service) (nowStr date) then False
          else day_flag service (getDay date))"

section \<open>Geometry utility\<close>

text \<open>\<open>Math.atan2(y, x)\<close> on finite arguments.\<close>

definition atan2 :: "real \<Rightarrow> real \<Rightarrow> real" where
  "atan2 y x =
     (if 0 < x then arctan (y / x)
      else if x < 0 then (if 0 \<le> y then arctan (y / x) + pi else arctan (y / x) - pi)
      else if 0 < y then pi / 2
      else if y < 0 then - (pi / 2)
      else 0)"

text \<open>
  The quantity \<open>a\<close> of \<open>haversineDistance\<close>, the haversine of the central angle; it lies
  between 0 and 1 (lemma \<open>haversine_a_range\<close>), so neither square root of the source
  is taken of a negative number.
\<close>

definition haversine_a :: "point \<Rightarrow> point \<Rightarrow> real" where
  "haversine_a p1 p2 =
     (let phi1 = fst p1 * pi / 180;
          phi2 = fst p2 * pi / 180;
          dphi = (fst p2 - fst p1) * pi / 180;
          dlambda = (snd p2 - snd p1) * pi / 180
      in sin (dphi / 2) * sin (dphi / 2)
         + cos phi1 * cos phi2 * sin (dlambda / 2) * sin (dlambda / 2))"

definition haversineDistance :: "point \<Rightarrow> point \<Rightarrow> real" where
  "haversineDistance p1 p2 =
     (let R = 6371000;
          a = haversine_a p1 p2;
          c = 2 * atan2 (sqrt a) (sqrt (1 - a))
      in R * c)"

text \<open>The squared Euclidean distance that \<open>findClosestPointIndex\<close> compares.\<close>

definition sq_dist :: "point \<Rightarrow> stop \<Rightarrow> real" where
  "sq_dist p st = (fst p - lat st) ^ 2 + (snd p - lon st) ^ 2"

text \<open>
  The loop of \<open>findClosestPointIndex\<close>, with its three variables \<open>i\<close>, \<open>minDesc\<close> and
  \<open>idx\<close>. The start index is a natural number: the two callers pass 0 and an index
  found before in a non-empty shape (lemma \<open>findClosestPointIndex_range\<close>).
\<close>

function closestLoop :: "point list \<Rightarrow> stop \<Rightarrow> nat \<Rightarrow> jsnum \<Rightarrow> int \<Rightarrow> int" where
  "closestLoop shape st i minDesc idx =
     (if i < length shape then
        (if js_lt (Fin (sq_dist (shape ! i) st)) minDesc
         then closestLoop shape st (Suc i) (Fin (sq_dist (shape ! i) st)) (int i)
         else closestLoop shape st (Suc i) minDesc idx)
      else idx)"
  by pat_completeness auto
termination
  by (relation "measure (\<lambda>(shape, st, i, minDesc, idx). length shape - i)") auto

definition findClosestPointIndex :: "point list \<Rightarrow> stop \<Rightarrow> nat \<Rightarrow> int" where
  "findClosestPointIndex shape st startIndex = closestLoop shape st startIndex PosInf (- 1)"

section \<open>Path interpolator\<close>

text \<open>
  The clamp of the to-index and the extraction of the sub-path
  (\<open>if (idx2 < idx1) idx2 = idx1; path = shape.slice(idx1, idx2 + 1)\<close>).
\<close>

definition shapePath :: "point list \<Rightarrow> int \<Rightarrow> int \<Rightarrow> point list" where
  "shapePath shape idx1 idx2 =
     (let idx2' = (if idx2 < idx1 then idx1 else idx2)
      in slice shape idx1 (idx2' + 1))"

text \<open>The first loop: the length of every segment of the path.\<close>

fun segmentDistances :: "point list \<Rightarrow> real list" where
  "segmentDistances (p # q # rest) = haversineDistance p q # segmentDistances (q # rest)"
| "segmentDistances _ = []"

text \<open>
  The second loop, over \<open>distances[i]\<close>, \<open>path[i]\<close> and \<open>path[i + 1]\<close>, with the running
  \<open>currentDist\<close>; \<open>None\<close> when the loop ends without returning.
\<close>

fun walk :: "real \<Rightarrow> jsnum \<Rightarrow> real list \<Rightarrow> point list \<Rightarrow> (jsnum \<times> jsnum) option" where
  "walk currentDist targetDist (d # ds) (p1 # p2 # ps) =
     (if js_ge (Fin (currentDist + d)) targetDist then
        (let segmentProgress = js_div (js_sub targetDist (Fin currentDist)) (Fin d)
         in Some (js_add (Fin (fst p1)) (js_mul (Fin (fst p2 - fst p1)) segmentProgress),
                  js_add (Fin (snd p1)) (js_mul (Fin (snd p2 - snd p1)) segmentProgress)))
      else walk (currentDist + d) targetDist ds (p2 # ps))"
| "walk currentDist targetDist _ _ = None"

definition walkPath :: "point list \<Rightarrow> jsnum \<Rightarrow> jsnum \<times> jsnum" where
  "walkPath path progress =
     (let distances = segmentDistances path;
          totalDist = foldl (+) 0 distances;
          targetDist = js_mul (Fin totalDist) progress
      in case walk 0 targetDist distances path of
           Some position \<Rightarrow> position
         | None \<Rightarrow> (Fin (fst (last path)), Fin (snd (last path))))"

text \<open>A missing shape (\<open>undefined\<close>) is \<open>None\<close>.\<close>

definition interpolatePositionOnShape ::
    "point list option \<Rightarrow> stop \<Rightarrow> stop \<Rightarrow> jsnum \<Rightarrow> jsnum \<times> jsnum" where
  "interpolatePositionOnShape shape stopFrom stopTo progress =
     (case shape of
        None \<Rightarrow> (Fin (lat stopFrom), Fin (lon stopFrom))
      | Some pts \<Rightarrow>
          if length pts < 2 then (Fin (lat stopFrom), Fin (lon stopFrom))
          else
            (let idx1 = findClosestPointIndex pts stopFrom 0;
                 idx2 = findClosestPointIndex pts stopTo (nat idx1);
                 path = shapePath pts idx1 idx2
             in if length path < 2 then (Fin (lat stopFrom), Fin (lon stopFrom))
                else walkPath path progress))"

section \<open>Stop-schedule index\<close>

text \<open>
  An entry of a stop's schedule list. Its fields \<open>tripId\<close>, \<open>serviceId\<close> and \<open>headsign\<close>
  carry the prefix \<open>e_\<close>, since a trip has fields of these names.
\<close>

record arrival_entry =
  time :: "int option"
  route :: route
  e_tripId :: string
  e_serviceId :: string
  e_headsign :: string

definition addStop ::
    "route \<Rightarrow> trip \<Rightarrow> (string \<rightharpoonup> arrival_entry list) \<Rightarrow> stop_time
      \<Rightarrow> (string \<rightharpoonup> arrival_entry list)" where
  "addStop r tr stopSchedules st =
     stopSchedules(stopId st \<mapsto>
       (case stopSchedules (stopId st) of None \<Rightarrow> [] | Some arrivals \<Rightarrow> arrivals)
       @ [\<lparr>time = timeToSeconds (departure st), route = r, e_tripId = tripId tr,
            e_serviceId = serviceId tr, e_headsign = headsign tr\<rparr>])"

definition addTrip ::
    "route \<Rightarrow> (string \<rightharpoonup> arrival_entry list) \<Rightarrow> trip \<Rightarrow> (string \<rightharpoonup> arrival_entry list)" where
  "addTrip r stopSchedules tr = foldl (addStop r tr) stopSchedules (stops tr)"

definition addRoute ::
    "route list \<Rightarrow> (string \<rightharpoonup> arrival_entry list) \<Rightarrow> string \<times> trip list
      \<Rightarrow> (string \<rightharpoonup> arrival_entry list)" where
  "addRoute rs stopSchedules entry =
     (case find (\<lambda>r. route_id r = fst entry) rs of
        None \<Rightarrow> stopSchedules
      | Some r \<Rightarrow> foldl (addTrip r) stopSchedules (snd entry))"

text \<open>The comparator \<open>(a, b) => a.time - b.time\<close>.\<close>

definition byTime :: "arrival_entry \<Rightarrow> arrival_entry \<Rightarrow> jsnum" where
  "byTime a b = js_sub (num_of (time a)) (num_of (time b))"

definition precalculateStopSchedules ::
    "(string \<times> trip list) list \<Rightarrow> route list \<Rightarrow> (string \<rightharpoonup> service)
      \<Rightarrow> (string \<rightharpoonup> arrival_entry list)" where
  "precalculateStopSchedules sched rs cal =
     (let stopSchedules = foldl (addRoute rs) Map.empty sched
      in (\<lambda>sid. map_option (array_sort byTime) (stopSchedules sid)))"


section \<open>Trip simulation engine (\<open>activeTrips\<close> of \<open>src/components/Map.jsx\<close>)\<close>

datatype status_tag = Moving | Dwelling

datatype segment =
    MovingSeg stop_time stop_time jsnum
  | DwellingSeg stop_time

text \<open>
  An entry of the active-vehicle list, \<open>{...trip, route, position, status}\<close>: the
  fields of the trip, kept together as \<open>v_trip\<close>, and the three added fields. The
  route is what \<open>routes.find\<close> returned, \<open>None\<close> for \<open>undefined\<close>.
\<close>

record vehicle =
  v_trip :: trip
  v_route :: "route option"
  position :: "jsnum \<times> jsnum"
  status :: status_tag

text \<open>\<open>(seconds - t1) / (t2 - t1)\<close>\<close>

definition progressOf :: "int \<Rightarrow> int option \<Rightarrow> int option \<Rightarrow> jsnum" where
  "progressOf seconds t1 t2 =
     js_div (js_sub (Fin (real_of_int seconds)) (num_of t1)) (js_sub (num_of t2) (num_of t1))"

text \<open>
  The scan \<open>for (i = 0; i < trip.stops.length - 1; i++)\<close> with its \<open>break\<close>: the list
  is the part of \<open>trip.stops\<close> from index \<open>i\<close> on, and \<open>None\<close> is \<open>currentSegment\<close>
  still \<open>null\<close> after the loop.
\<close>

fun findSegment :: "int \<Rightarrow> stop_time list \<Rightarrow> segment option" where
  "findSegment seconds (s1 # s2 # rest) =
     (let t1 = timeToSeconds (departure s1);
          t2 = timeToSeconds (arrival s2)
      in if js_ge (Fin (real_of_int seconds)) (num_of t1)
            \<and> js_le (Fin (real_of_int seconds)) (num_of t2)
         then Some (MovingSeg s1 s2 (progressOf seconds t1 t2))
         else if js_ge (Fin (real_of_int seconds)) (num_of (timeToSeconds (arrival s1)))
                 \<and> js_lt (Fin (real_of_int seconds)) (num_of t1)
         then Some (DwellingSeg s1)
         else findSegment seconds (s2 # rest))"
| "findSegment seconds _ = None"

text \<open>
  \<open>data.stops[id]\<close>. The stops table is a plain object, so an id that is not among its
  entries still finds a member inherited from \<open>Object.prototype\<close> when it is the name
  of one. Each of the twelve members is an object or a function, which \<open>if (stop)\<close> and
  \<open>if (stop1 && stop2)\<close> take for true, and none has a field \<open>lat\<close> or \<open>lon\<close>: both
  read \<open>undefined\<close>. Every other id gives \<open>undefined\<close>, here \<open>None\<close>.
\<close>

definition prototype_members :: "string list" where
  "prototype_members =
     [''constructor'', ''hasOwnProperty'', ''isPrototypeOf'', ''propertyIsEnumerable'',
      ''toLocaleString'', ''toString'', ''valueOf'', ''__proto__'', ''__defineGetter__'',
      ''__defineSetter__'', ''__lookupGetter__'', ''__lookupSetter__'']"

datatype stop_value = Record stop | Member

definition stopsGet :: "(string \<rightharpoonup> stop) \<Rightarrow> string \<Rightarrow> stop_value option" where
  "stopsGet table key =
     (case table key of
        Some st \<Rightarrow> Some (Record st)
      | None \<Rightarrow> if key \<in> set prototype_members then Some Member else None)"

text \<open>\<open>[stop.lat, stop.lon]\<close>\<close>

fun coordinates :: "stop_value \<Rightarrow> jsnum \<times> jsnum" where
  "coordinates (Record st) = (Fin (lat st), Fin (lon st))"
| "coordinates Member = (Undefined, Undefined)"

text \<open>
  \<open>interpolatePositionOnShape(shape, stop1, stop2, progress)\<close> on what the stops table
  gave. On two records it is the function of the path interpolator. An inherited member
  has no coordinates, and every squared distance to it is \<open>NaN\<close>, so that
  \<open>findClosestPointIndex\<close> finds no point and returns -1.

  \<^item> When \<open>stop2\<close> is a member and \<open>stop1\<close> a record, the function runs as on two
    records, with -1 for the index of \<open>stop2\<close>. (That index is clamped to the index of
    \<open>stop1\<close>, and the result is always the fallback \<open>[stop1.lat, stop1.lon]\<close>: lemma
    \<open>interpolateStops_member_to\<close>.)
  \<^item> When \<open>stop1\<close> is a member: without a shape of two points the fallback is
    \<open>[undefined, undefined]\<close>; with one, the index of \<open>stop1\<close> is -1, the search for
    \<open>stop2\<close> starts there and reads \<open>shape[-1][0]\<close>, which throws a \<open>TypeError\<close>,
    since \<open>shape[-1]\<close> is \<open>undefined\<close>.
\<close>

fun interpolateStops ::
    "point list option \<Rightarrow> stop_value \<Rightarrow> stop_value \<Rightarrow> jsnum \<Rightarrow> error + jsnum \<times> jsnum" where
  "interpolateStops shape (Record stop1) (Record stop2) progress =
     Inr (interpolatePositionOnShape shape stop1 stop2 progress)"
| "interpolateStops shape (Record stop1) Member progress =
     (case shape of
        None \<Rightarrow> Inr (Fin (lat stop1), Fin (lon stop1))
      | Some pts \<Rightarrow>
          if length pts < 2 then Inr (Fin (lat stop1), Fin (lon stop1))
          else
            (let idx1 = findClosestPointIndex pts stop1 0;
                 path = shapePath pts idx1 (- 1)
             in if length path < 2 then Inr (Fin (lat stop1), Fin (lon stop1))
                else Inr (walkPath path progress)))"
| "interpolateStops shape Member stop2 progress =
     (case shape of
        None \<Rightarrow> Inr (Undefined, Undefined)
      | Some pts \<Rightarrow> if length pts < 2 then Inr (Undefined, Undefined) else Inl TypeError)"

text \<open>
  The position of a segment; \<open>Inr None\<close> is \<open>position\<close> still \<open>null\<close>. An array is
  true whatever it holds, so \<open>if (position)\<close> lets \<open>[undefined, undefined]\<close> through.
\<close>

fun segmentPosition :: "gtfs_data \<Rightarrow> trip \<Rightarrow> segment \<Rightarrow> error + (jsnum \<times> jsnum) option" where
  "segmentPosition d tr (DwellingSeg s) =
     (case stopsGet (stopTable d) (stopId s) of
        None \<Rightarrow> Inr None
      | Some stop \<Rightarrow> Inr (Some (coordinates stop)))"
| "segmentPosition d tr (MovingSeg from to progress) =
     (case stopsGet (stopTable d) (stopId from) of
        None \<Rightarrow> Inr None
      | Some stop1 \<Rightarrow>
          (case stopsGet (stopTable d) (stopId to) of
             None \<Rightarrow> Inr None
           | Some stop2 \<Rightarrow>
               (case interpolateStops (shapes d (shapeId tr)) stop1 stop2 progress of
                  Inl e \<Rightarrow> Inl e
                | Inr pos \<Rightarrow> Inr (Some pos))))"

fun segmentType :: "segment \<Rightarrow> status_tag" where
  "segmentType (MovingSeg from to progress) = Moving"
| "segmentType (DwellingSeg s) = Dwelling"

text \<open>
  The body of \<open>routeTrips.forEach\<close> for one trip: the vehicle it pushes, if any.
  Reading \<open>firstStop.departure\<close> of a trip without stops throws a \<open>TypeError\<close>, and an
  error thrown while the position is computed ends the engine as well.
\<close>

definition simulateTrip ::
    "gtfs_data \<Rightarrow> jsdate \<Rightarrow> int \<Rightarrow> string \<Rightarrow> trip \<Rightarrow> error + vehicle option" where
  "simulateTrip d now seconds routeId tr =
     (if \<not> isServiceActive (serviceId tr) (calendar d) now then Inr None
      else
        (case stops tr of
           [] \<Rightarrow> Inl TypeError
         | firstStop # _ \<Rightarrow>
             (let lastStop = last (stops tr);
                  startSec = timeToSeconds (departure firstStop);
                  endSec = timeToSeconds (arrival lastStop)
              in if js_ge (Fin (real_of_int seconds)) (num_of startSec)
                    \<and> js_le (Fin (real_of_int seconds)) (num_of endSec)
                 then
                   (case findSegment seconds (stops tr) of
                      None \<Rightarrow> Inr None
                    | Some currentSegment \<Rightarrow>
                        (case segmentPosition d tr currentSegment of
                           Inl e \<Rightarrow> Inl e
                         | Inr None \<Rightarrow> Inr None
                         | Inr (Some pos) \<Rightarrow>
                             Inr (Some \<lparr>v_trip = tr,
                                        v_route = find (\<lambda>r. route_id r = routeId) (routes d),
                                        position = pos,
                                        status = segmentType currentSegment\<rparr>)))
                 else Inr None)))"

text \<open>The two nested \<open>forEach\<close> loops, with the array \<open>active\<close> they push to.\<close>

fun tripsLoop ::
    "gtfs_data \<Rightarrow> jsdate \<Rightarrow> int \<Rightarrow> string \<Rightarrow> trip list \<Rightarrow> vehicle list
      \<Rightarrow> error + vehicle list" where
  "tripsLoop d now seconds routeId [] active = Inr active"
| "tripsLoop d now seconds routeId (tr # trs) active =
     (case simulateTrip d now seconds routeId tr of
        Inl e \<Rightarrow> Inl e
      | Inr None \<Rightarrow> tripsLoop d now seconds routeId trs active
      | Inr (Some v) \<Rightarrow> tripsLoop d now seconds routeId trs (active @ [v]))"

fun routesLoop ::
    "gtfs_data \<Rightarrow> jsdate \<Rightarrow> int \<Rightarrow> (string \<times> trip list) list \<Rightarrow> vehicle list
      \<Rightarrow> error + vehicle list" where
  "routesLoop d now seconds [] active = Inr active"
| "routesLoop d now seconds ((routeId, routeTrips) # rest) active =
     (case tripsLoop d now seconds routeId routeTrips active of
        Inl e \<Rightarrow> Inl e
      | Inr active' \<Rightarrow> routesLoop d now seconds rest active')"

text \<open>
  \<open>activeTrips\<close> for a simulated time \<open>currentTime\<close>; the data set is \<open>None\<close> until it
  is loaded (\<open>if (!data) return []\<close>), and \<open>now\<close> is the date \<open>new Date()\<close> returns.
\<close>

definition activeTrips :: "gtfs_data option \<Rightarrow> jsdate \<Rightarrow> int \<Rightarrow> error + vehicle list" where
  "activeTrips dat now currentTime =
     (case dat of
        None \<Rightarrow> Inr []
      | Some d \<Rightarrow> routesLoop d now currentTime (schedule d) [])"

section \<open>Notions used to state the properties\<close>

text \<open>The order of two schedule entries by their times, as numbers.\<close>

definition time_le :: "arrival_entry \<Rightarrow> arrival_entry \<Rightarrow> bool" where
  "time_le a b = js_le (num_of (time a)) (num_of (time b))"

text \<open>The (stop id, entry) pairs that a stop-schedule index holds.\<close>

definition entries_of :: "(string \<rightharpoonup> arrival_entry list) \<Rightarrow> (string \<times> arrival_entry) set" where
  "entries_of m = {(k, e). \<exists>l. m k = Some l \<and> e \<in> set l}"

text \<open>The entry that \<open>precalculateStopSchedules\<close> pushes for a stop-time of a trip.\<close>

definition entry_for :: "route \<Rightarrow> trip \<Rightarrow> stop_time \<Rightarrow> arrival_entry" where
  "entry_for r tr st =
     \<lparr>time = timeToSeconds (departure st), route = r, e_tripId = tripId tr,
      e_serviceId = serviceId tr, e_headsign = headsign tr\<rparr>"

text \<open>The pairs that one entry of the schedule table contributes to the index.\<close>

definition route_entries :: "route list \<Rightarrow> string \<times> trip list \<Rightarrow> (string \<times> arrival_entry) set" where
  "route_entries rs entry =
     (case find (\<lambda>r. route_id r = fst entry) rs of
        None \<Rightarrow> {}
      | Some r \<Rightarrow>
          {(stopId st, entry_for r tr st) | tr st. tr \<in> set (snd entry) \<and> st \<in> set (stops tr)})"

text \<open>
  The calendar as the specification words it: a service is active on a date when the
  date, written \<open>YYYYMMDD\<close>, is within \<open>[startDate, endDate]\<close> and the flag of that
  date's weekday (0 for Sunday) is set; a service that the table does not have is never
  active. The date is given by its day number, so that the date written and the weekday
  are those of one day.
\<close>

definition yyyymmdd :: "int \<Rightarrow> string" where
  "yyyymmdd day = (case civil day of (y, m, d) \<Rightarrow> pad4 (nat y) @ pad2 m @ pad2 d)"

definition weekday :: "int \<Rightarrow> nat" where
  "weekday day = nat ((day + 4) mod 7)"

definition serviceActiveOnDay :: "string \<Rightarrow> (string \<rightharpoonup> service) \<Rightarrow> int \<Rightarrow> bool" where
  "serviceActiveOnDay sid cal day =
     (case cal sid of
        None \<Rightarrow> False
      | Some svc \<Rightarrow>
          \<not> str_less (yyyymmdd day) (startDate svc) \<and> \<not> str_less (endDate svc) (yyyymmdd day)
          \<and> day_flag svc (weekday day))"


text \<open>The arrival and the departure of a stop-time, in seconds, as the engine reads them.\<close>

definition arrivalSec :: "stop_time \<Rightarrow> jsnum" where
  "arrivalSec s = num_of (timeToSeconds (arrival s))"

definition departureSec :: "stop_time \<Rightarrow> jsnum" where
  "departureSec s = num_of (timeToSeconds (departure s))"

text \<open>
  The two tests of the scan at index \<open>i\<close>: the time lies in the moving interval
  \<open>[departure(i), arrival(i + 1)]\<close>, or in the dwelling interval
  \<open>[arrival(i), departure(i))\<close>.
\<close>

definition moving_at :: "int \<Rightarrow> stop_time list \<Rightarrow> nat \<Rightarrow> bool" where
  "moving_at t ss i =
     (js_ge (Fin (real_of_int t)) (departureSec (ss ! i))
      \<and> js_le (Fin (real_of_int t)) (arrivalSec (ss ! (i + 1))))"

definition dwelling_at :: "int \<Rightarrow> stop_time list \<Rightarrow> nat \<Rightarrow> bool" where
  "dwelling_at t ss i =
     (js_ge (Fin (real_of_int t)) (arrivalSec (ss ! i))
      \<and> js_lt (Fin (real_of_int t)) (departureSec (ss ! i)))"

text \<open>No index before \<open>i\<close> passes a test of the scan: the scan reaches index \<open>i\<close>.\<close>

definition scan_reaches :: "int \<Rightarrow> stop_time list \<Rightarrow> nat \<Rightarrow> bool" where
  "scan_reaches t ss i = (\<forall>j < i. \<not> moving_at t ss j \<and> \<not> dwelling_at t ss j)"

text \<open>
  The invariant of a trip's stop-times: every time is a number, a stop is left no
  earlier than it is reached, and the next stop is reached no earlier than this one is
  left. (Equal times are allowed.)
\<close>

fun ordered_times :: "stop_time list \<Rightarrow> bool" where
  "ordered_times [] = True"
| "ordered_times [s] = js_le (arrivalSec s) (departureSec s)"
| "ordered_times (s1 # s2 # rest) =
     (js_le (arrivalSec s1) (departureSec s1) \<and> js_le (departureSec s1) (arrivalSec s2)
      \<and> ordered_times (s2 # rest))"

text \<open>Every arrival and departure of the list is a number.\<close>

definition times_numeric :: "stop_time list \<Rightarrow> bool" where
  "times_numeric ss =
     list_all (\<lambda>s. timeToSeconds (arrival s) \<noteq> None \<and> timeToSeconds (departure s) \<noteq> None) ss"


text \<open>
  No stop id of the trip finds an inherited member in the stops table: every id is an
  entry of the table, or is not the name of a member of \<open>Object.prototype\<close>.
\<close>

definition plain_ids :: "gtfs_data \<Rightarrow> trip \<Rightarrow> bool" where
  "plain_ids d tr = list_all (\<lambda>s. stopsGet (stopTable d) (stopId s) \<noteq> Some Member) (stops tr)"

text \<open>
  The outer test of the engine: the time lies in
  \<open>[firstStop.departure, lastStop.arrival]\<close>.
\<close>

definition in_window :: "int \<Rightarrow> stop_time list \<Rightarrow> bool" where
  "in_window t ss =
     (js_ge (Fin (real_of_int t)) (departureSec (ss ! 0))
      \<and> js_le (Fin (real_of_int t)) (arrivalSec (last ss)))"

text \<open>The vehicle that the engine pushes for a trip, given its position and status.\<close>

definition vehicle_of :: "gtfs_data \<Rightarrow> string \<Rightarrow> trip \<Rightarrow> jsnum \<times> jsnum \<Rightarrow> status_tag \<Rightarrow> vehicle" where
  "vehicle_of d routeId tr pos st =
     \<lparr>v_trip = tr, v_route = find (\<lambda>r. route_id r = routeId) (routes d),
      position = pos, status = st\<rparr>"

section \<open>Example data\<close>

text \<open>
  A weekday service valid during 2024 and Wednesday 1 May 2024, 03:00 UTC, which is
  11:00 in Malaysia; one route;
  three stops; a trip that waits at its first stop from 07:59:00 to 08:00:00 (28800),
  is at its second stop from 08:04:00 (29040) to 08:05:00 (29100) and reaches its last
  stop at 08:10:00 (29400). The trip's shape is not in the shapes table.
\<close>

definition ex_service :: service where
  "ex_service =
     \<lparr>monday = True, tuesday = True, wednesday = True, thursday = True, friday = True,
      saturday = False, sunday = False, startDate = ''20240101'', endDate = ''20241231''\<rparr>"

definition ex_calendar :: "string \<rightharpoonup> service" where
  "ex_calendar = [''WD'' \<mapsto> ex_service]"

definition ex_now :: jsdate where
  "ex_now = \<lparr>timeValue = 1714532400000, localOffset = 480\<rparr>"

text \<open>
  A service of the working days of the first week of 2024, and Monday 8 January 2024,
  01:00 in Malaysia, which is Sunday 7 January 2024, 17:00 UTC.
\<close>

definition ex_week :: "string \<rightharpoonup> service" where
  "ex_week =
     [''W1'' \<mapsto> \<lparr>monday = True, tuesday = True, wednesday = True, thursday = True,
        friday = True, saturday = False, sunday = False,
        startDate = ''20240101'', endDate = ''20240107''\<rparr>]"

definition ex_night :: jsdate where
  "ex_night = \<lparr>timeValue = 1704646800000, localOffset = 480\<rparr>"

definition ex_route :: route where
  "ex_route =
     \<lparr>route_id = ''R1'', shortName = ''1'', longName = ''Line 1'', color = ''#FF3B30'',
      textColor = ''#ffffff''\<rparr>"

definition ex_stop1 :: stop where
  "ex_stop1 = \<lparr>name = ''Stop 1'', lat = 6, lon = 102\<rparr>"

definition ex_stop2 :: stop where
  "ex_stop2 = \<lparr>name = ''Stop 2'', lat = 7, lon = 103\<rparr>"

definition ex_stop3 :: stop where
  "ex_stop3 = \<lparr>name = ''Stop 3'', lat = 8, lon = 104\<rparr>"

definition ex_stopTable :: "string \<rightharpoonup> stop" where
  "ex_stopTable = [''S1'' \<mapsto> ex_stop1, ''S2'' \<mapsto> ex_stop2, ''S3'' \<mapsto> ex_stop3]"

definition ex_st1 :: stop_time where
  "ex_st1 = \<lparr>stopId = ''S1'', arrival = ''07:59:00'', departure = ''08:00:00''\<rparr>"

definition ex_st2 :: stop_time where
  "ex_st2 = \<lparr>stopId = ''S2'', arrival = ''08:04:00'', departure = ''08:05:00''\<rparr>"

definition ex_st3 :: stop_time where
  "ex_st3 = \<lparr>stopId = ''S3'', arrival = ''08:10:00'', departure = ''08:10:00''\<rparr>"

definition ex_trip :: trip where
  "ex_trip =
     \<lparr>tripId = ''T1'', serviceId = ''WD'', shapeId = ''SH1'', headsign = ''Town'',
      stops = [ex_st1, ex_st2, ex_st3]\<rparr>"

definition ex_data :: gtfs_data where
  "ex_data =
     \<lparr>routes = [ex_route], stopTable = ex_stopTable, shapes = Map.empty,
      schedule = [(''R1'', [ex_trip])], calendar = ex_calendar\<rparr>"

text \<open>
  A trip that does not wait at its second stop (arrival and departure at 08:04:00), in
  a data set whose stops table lacks the third stop.
\<close>

definition ex_st2_through :: stop_time where
  "ex_st2_through = \<lparr>stopId = ''S2'', arrival = ''08:04:00'', departure = ''08:04:00''\<rparr>"

definition ex_trip_through :: trip where
  "ex_trip_through =
     \<lparr>tripId = ''T2'', serviceId = ''WD'', shapeId = ''SH1'', headsign = ''Town'',
      stops = [ex_st1, ex_st2_through, ex_st3]\<rparr>"

definition ex_data_through :: gtfs_data where
  "ex_data_through =
     \<lparr>routes = [ex_route], stopTable = [''S1'' \<mapsto> ex_stop1, ''S2'' \<mapsto> ex_stop2],
      shapes = Map.empty, schedule = [(''R1'', [ex_trip_through])], calendar = ex_calendar\<rparr>"

text \<open>The same data with a shape for the trip, through the three stops.\<close>

definition ex_shape :: "point list" where
  "ex_shape = [(6, 102), (7, 103), (8, 104)]"

definition ex_data_shape :: gtfs_data where
  "ex_data_shape = ex_data\<lparr>shapes := [''SH1'' \<mapsto> ex_shape]\<rparr>"

section \<open>Properties of the time and calendar utility\<close>

subsection \<open>Splitting and parsing\<close>

lemma is_digit_not_colon: "is_digit c \<Longrightarrow> c \<noteq> CHR '':''"
  by (auto simp: is_digit_def)

lemma split_on_no_sep: "sep \<notin> set f \<Longrightarrow> split_on sep f = [f]"
  by (induction f) auto

lemma split_on_field:
  "sep \<notin> set f \<Longrightarrow> split_on sep (f @ sep # rest) = f # split_on sep rest"
  by (induction f) auto

lemma digits_no_colon: "list_all is_digit f \<Longrightarrow> CHR '':'' \<notin> set f"
  by (auto simp: list_all_iff dest: is_digit_not_colon)

lemma timeToSeconds_fields:
  assumes "list_all is_digit h" "list_all is_digit m" "list_all is_digit s"
  shows "timeToSeconds (h @ CHR '':'' # m @ CHR '':'' # s)
         = Some (int (dec h) * 3600 + int (dec m) * 60 + int (dec s))"
  using assms
  by (simp add: timeToSeconds_def split_on_field split_on_no_sep digits_no_colon Number_def)

lemma digit_val_less: "is_digit c \<Longrightarrow> digit_val c < 10"
  by (auto simp: is_digit_def digit_val_def)

lemma digit_val_inj:
  assumes "is_digit c" "is_digit c'" "digit_val c = digit_val c'"
  shows "c = c'"
proof -
  have "(of_char c :: nat) = of_char c'"
    using assms unfolding is_digit_def digit_val_def by linarith
  then show ?thesis by (simp only: of_char_eq_iff)
qed

lemma two_digit_hms_cases:
  assumes "two_digit_hms s"
  obtains h1 h2 m1 m2 s1 s2 where
    "s = [h1, h2, CHR '':'', m1, m2, CHR '':'', s1, s2]"
    "is_digit h1" "is_digit h2" "is_digit m1" "is_digit m2" "is_digit s1" "is_digit s2"
    "10 * digit_val m1 + digit_val m2 < 60" "10 * digit_val s1 + digit_val s2 < 60"
  using assms
  by (auto simp: two_digit_hms_def dec_def split: list.splits)

lemma timeToSeconds_two_digit:
  assumes "is_digit h1" "is_digit h2" "is_digit m1" "is_digit m2" "is_digit s1" "is_digit s2"
  shows "timeToSeconds [h1, h2, CHR '':'', m1, m2, CHR '':'', s1, s2]
        = Some (int ((10 * digit_val h1 + digit_val h2) * 3600
                     + (10 * digit_val m1 + digit_val m2) * 60
                     + (10 * digit_val s1 + digit_val s2)))"
  using timeToSeconds_fields[of "[h1,h2]" "[m1,m2]" "[s1,s2]"] assms
  by (simp add: dec_def)

text \<open>A time is determined by its seconds: base 60 for the fields, base 10 within a field.\<close>

lemma base60_unique:
  fixes h m s h' m' s' :: nat
  assumes "m < 60" "s < 60" "m' < 60" "s' < 60"
          "h * 3600 + m * 60 + s = h' * 3600 + m' * 60 + s'"
  shows "h = h' \<and> m = m' \<and> s = s'"
proof -
  have h: "h = h'" using assms by linarith
  have m: "m = m'" using assms h by linarith
  have s: "s = s'" using assms h m by linarith
  show ?thesis using h m s by simp
qed

lemma base10_unique:
  fixes a b a' b' :: nat
  assumes "b < 10" "b' < 10" "10 * a + b = 10 * a' + b'"
  shows "a = a' \<and> b = b'"
proof -
  have a: "a = a'" using assms by linarith
  have b: "b = b'" using assms a by linarith
  show ?thesis using a b by simp
qed

lemma hms_digits_unique:
  fixes a b c d e f a' b' c' d' e' f' :: nat
  assumes "a < 10" "b < 10" "c < 10" "d < 10" "e < 10" "f < 10"
          "a' < 10" "b' < 10" "c' < 10" "d' < 10" "e' < 10" "f' < 10"
          "10 * c + d < 60" "10 * e + f < 60" "10 * c' + d' < 60" "10 * e' + f' < 60"
          "(10 * a + b) * 3600 + (10 * c + d) * 60 + (10 * e + f)
           = (10 * a' + b') * 3600 + (10 * c' + d') * 60 + (10 * e' + f')"
  shows "a = a' \<and> b = b' \<and> c = c' \<and> d = d' \<and> e = e' \<and> f = f'"
proof -
  have "10 * a + b = 10 * a' + b' \<and> 10 * c + d = 10 * c' + d' \<and> 10 * e + f = 10 * e' + f'"
    by (rule base60_unique[OF assms(13) assms(14) assms(15) assms(16) assms(17)])
  then show ?thesis
    using assms(1-12) base10_unique[of b b' a a'] base10_unique[of d d' c c']
      base10_unique[of f f' e e'] by simp
qed

lemma timeToSeconds_inj:
  assumes "two_digit_hms x" "two_digit_hms y" "timeToSeconds x = timeToSeconds y"
  shows "x = y"
proof -
  from assms(1) obtain h1 h2 m1 m2 s1 s2 where x:
    "x = [h1, h2, CHR '':'', m1, m2, CHR '':'', s1, s2]"
    "is_digit h1" "is_digit h2" "is_digit m1" "is_digit m2" "is_digit s1" "is_digit s2"
    "10 * digit_val m1 + digit_val m2 < 60" "10 * digit_val s1 + digit_val s2 < 60"
    by (rule two_digit_hms_cases)
  from assms(2) obtain h1' h2' m1' m2' s1' s2' where y:
    "y = [h1', h2', CHR '':'', m1', m2', CHR '':'', s1', s2']"
    "is_digit h1'" "is_digit h2'" "is_digit m1'" "is_digit m2'" "is_digit s1'" "is_digit s2'"
    "10 * digit_val m1' + digit_val m2' < 60" "10 * digit_val s1' + digit_val s2' < 60"
    by (rule two_digit_hms_cases)
  have "int ((10 * digit_val h1 + digit_val h2) * 3600
             + (10 * digit_val m1 + digit_val m2) * 60
             + (10 * digit_val s1 + digit_val s2))
      = int ((10 * digit_val h1' + digit_val h2') * 3600
             + (10 * digit_val m1' + digit_val m2') * 60
             + (10 * digit_val s1' + digit_val s2'))"
    using assms(3) x y by (simp only: timeToSeconds_two_digit option.inject)
  then have eq: "(10 * digit_val h1 + digit_val h2) * 3600
                 + (10 * digit_val m1 + digit_val m2) * 60
                 + (10 * digit_val s1 + digit_val s2)
      = (10 * digit_val h1' + digit_val h2') * 3600
        + (10 * digit_val m1' + digit_val m2') * 60
        + (10 * digit_val s1' + digit_val s2')"
    by (simp only: of_nat_eq_iff)
  have "digit_val h1 = digit_val h1' \<and> digit_val h2 = digit_val h2'
        \<and> digit_val m1 = digit_val m1' \<and> digit_val m2 = digit_val m2'
        \<and> digit_val s1 = digit_val s1' \<and> digit_val s2 = digit_val s2'"
    by (rule hms_digits_unique[OF _ _ _ _ _ _ _ _ _ _ _ _ x(8) x(9) y(8) y(9) eq])
       (simp_all add: digit_val_less x y)
  then show ?thesis
    using x y by (auto intro: digit_val_inj)
qed

lemma timeToSeconds_midnight: "timeToSeconds ''00:00:00'' = Some 0"
  by (simp add: timeToSeconds_def Number_def dec_def digit_val_def is_digit_def)

lemma timeToSeconds_last_second: "timeToSeconds ''23:59:59'' = Some 86399"
  by (simp add: timeToSeconds_def Number_def dec_def digit_val_def is_digit_def)

text \<open>
  Claim C8. For every time string whose three fields are decimal digits (any number of
  digits for the hours, so hours are arbitrary), \<open>timeToSeconds\<close> returns
  \<open>H * 3600 + M * 60 + S\<close>; on the two-digit form \<open>HH:MM:SS\<close> with minutes and seconds
  below 60 it is injective; and it maps \<open>00:00:00\<close> to 0 and \<open>23:59:59\<close> to 86399.
\<close>

theorem timeToSeconds_hms:
  "(list_all is_digit h \<and> list_all is_digit m \<and> list_all is_digit s \<longrightarrow>
      timeToSeconds (h @ '':'' @ m @ '':'' @ s)
        = Some (int (dec h) * 3600 + int (dec m) * 60 + int (dec s)))
   \<and> (two_digit_hms x \<and> two_digit_hms y \<and> timeToSeconds x = timeToSeconds y \<longrightarrow> x = y)
   \<and> timeToSeconds ''00:00:00'' = Some 0
   \<and> timeToSeconds ''23:59:59'' = Some 86399"
  using timeToSeconds_fields[of h m s] timeToSeconds_inj[of x y]
    timeToSeconds_midnight timeToSeconds_last_second
  by simp

theorem timeToSeconds_hms_witness:
  "list_all is_digit ''08'' \<and> list_all is_digit ''30'' \<and> list_all is_digit ''15''
   \<and> timeToSeconds ''08:30:15'' = Some 30615
   \<and> two_digit_hms ''08:30:15''"
  using timeToSeconds_hms[of "''08''" "''30''" "''15''" "''08:30:15''" "''08:30:15''"]
  by (simp add: is_digit_def dec_def digit_val_def two_digit_hms_def)

subsection \<open>Comparing dates written as digit strings\<close>

lemma dec_Cons: "dec (c # cs) = digit_val c * 10 ^ length cs + dec cs"
proof -
  have "foldl (\<lambda>acc c. 10 * acc + digit_val c) a cs
        = a * 10 ^ length cs + foldl (\<lambda>acc c. 10 * acc + digit_val c) 0 cs" for a
  proof (induction cs arbitrary: a)
    case Nil
    show ?case by simp
  next
    case (Cons d ds)
    show ?case
      using Cons.IH[of "10 * a + digit_val d"] Cons.IH[of "digit_val d"]
      by (simp add: algebra_simps)
  qed
  from this[of "digit_val c"] show ?thesis by (simp add: dec_def)
qed

lemma dec_bound: "list_all is_digit cs \<Longrightarrow> dec cs < 10 ^ length cs"
proof (induction cs)
  case Nil
  show ?case by (simp add: dec_def)
next
  case (Cons c cs)
  then have "digit_val c \<le> 9" "dec cs < 10 ^ length cs"
    using digit_val_less[of c] by simp_all
  then have "digit_val c * 10 ^ length cs + dec cs < 9 * 10 ^ length cs + 10 ^ length cs"
    by (meson add_le_less_mono mult_le_mono1)
  then show ?case by (simp add: dec_Cons)
qed

lemma of_char_less_digit:
  "is_digit c \<Longrightarrow> is_digit c' \<Longrightarrow> ((of_char c :: nat) < of_char c') = (digit_val c < digit_val c')"
  unfolding is_digit_def digit_val_def by linarith

lemma str_less_digits:
  assumes "length a = length b" "list_all is_digit a" "list_all is_digit b"
  shows "str_less a b = (dec a < dec b)"
  using assms
proof (induction a b rule: list_induct2)
  case Nil
  show ?case by (simp add: dec_def)
next
  case (Cons x xs y ys)
  have dx: "is_digit x" and dy: "is_digit y" using Cons.prems by simp_all
  have bx: "dec xs < 10 ^ length xs" and by': "dec ys < 10 ^ length xs"
    using Cons.prems Cons.hyps dec_bound[of xs] dec_bound[of ys] by simp_all
  have IH: "str_less xs ys = (dec xs < dec ys)" using Cons by simp
  consider (lt) "digit_val x < digit_val y" | (gt) "digit_val y < digit_val x"
    | (eq) "digit_val x = digit_val y" by linarith
  then show ?case
  proof cases
    case lt
    then have "Suc (digit_val x) \<le> digit_val y" by simp
    then have "Suc (digit_val x) * 10 ^ length xs \<le> digit_val y * 10 ^ length xs"
      by (rule mult_le_mono1)
    then have "digit_val x * 10 ^ length xs + dec xs < digit_val y * 10 ^ length xs + dec ys"
      using bx by simp
    then show ?thesis
      using lt dx dy Cons.hyps by (simp add: dec_Cons of_char_less_digit)
  next
    case gt
    then have "Suc (digit_val y) \<le> digit_val x" by simp
    then have "Suc (digit_val y) * 10 ^ length xs \<le> digit_val x * 10 ^ length xs"
      by (rule mult_le_mono1)
    then have "digit_val y * 10 ^ length xs + dec ys < digit_val x * 10 ^ length xs + dec xs"
      using by' by simp
    then show ?thesis
      using gt dx dy Cons.hyps by (simp add: dec_Cons of_char_less_digit)
  next
    case eq
    then show ?thesis
      using dx dy IH Cons.hyps by (simp add: dec_Cons of_char_less_digit)
  qed
qed

lemma isServiceActive_absent: "cal sid = None \<Longrightarrow> \<not> isServiceActive sid cal date"
  by (simp add: isServiceActive_def)

lemma isServiceActive_out_of_range:
  "cal sid = Some svc \<Longrightarrow>
   str_less (nowStr date) (startDate svc) \<or> str_less (endDate svc) (nowStr date) \<Longrightarrow>
   \<not> isServiceActive sid cal date"
  by (auto simp: isServiceActive_def)

lemma isServiceActive_in_range:
  "cal sid = Some svc \<Longrightarrow>
   \<not> str_less (nowStr date) (startDate svc) \<Longrightarrow> \<not> str_less (endDate svc) (nowStr date) \<Longrightarrow>
   isServiceActive sid cal date = day_flag svc (getDay date)"
  by (simp add: isServiceActive_def)

lemma day_flag_weekdays:
  "day_flag svc 0 = sunday svc \<and> day_flag svc 1 = monday svc \<and> day_flag svc 2 = tuesday svc
   \<and> day_flag svc 3 = wednesday svc \<and> day_flag svc 4 = thursday svc
   \<and> day_flag svc 5 = friday svc \<and> day_flag svc 6 = saturday svc"
  by (simp add: day_flag_def)

subsection \<open>The date of a \<open>Date\<close> object\<close>

lemmas pad_defs = yearString_def pad2_def pad3_def pad4_def pad6_def digit_char_def

lemma civil_19844: "civil 19844 = (2024, 5, 1)"
  unfolding civil_def Let_def by simp

lemma ex_now_iso: "toISOString ex_now = ''2024-05-01T03:00:00.000Z''"
  unfolding toISOString_def Let_def
  by (simp add: ex_now_def Day_def msPerDay_def civil_19844 pad_defs)

lemma ex_now_day: "getDay ex_now = 3"
  by (simp add: getDay_def WeekDay_def LocalTime_def Day_def msPerDay_def ex_now_def)

lemma ex_now_str: "nowStr ex_now = ''20240501''"
  by (simp add: nowStr_def ex_now_iso)

text \<open>The weekday that \<open>getDay\<close> returns is the weekday of the local day.\<close>

lemma getDay_weekday: "getDay date = weekday (Day (LocalTime date))"
  by (simp add: getDay_def WeekDay_def weekday_def)

text \<open>The first field of a split is the text before the first separator.\<close>

lemma split_on_first: "sep \<notin> set a \<Longrightarrow> split_on sep (a @ sep # b) = a # split_on sep b"
  by (induction a) auto

lemma digit_char_range: "digit_char n \<in> set ''0123456789''"
  unfolding digit_char_def by (rule nth_mem) simp

lemma digit_char_plain:
  "digit_char n \<noteq> CHR ''-''" "digit_char n \<noteq> CHR ''T''"
  "CHR ''-'' \<noteq> digit_char n" "CHR ''T'' \<noteq> digit_char n"
  using digit_char_range[of n] by auto

text \<open>
  For a year from 0 to 9999 the string that \<open>isServiceActive\<close> compares is the UTC day
  written \<open>YYYYMMDD\<close>.
\<close>

lemma nowStr_utc_day:
  assumes "civil (Day (timeValue date)) = (y, m, d)" "0 \<le> y" "y \<le> 9999"
  shows "nowStr date = yyyymmdd (Day (timeValue date))"
proof -
  let ?a = "pad4 (nat y) @ ''-'' @ pad2 m @ ''-'' @ pad2 d"
  obtain rest where iso: "toISOString date = ?a @ CHR ''T'' # rest"
    unfolding toISOString_def Let_def using assms by (simp add: yearString_def)
  have "CHR ''T'' \<notin> set ?a"
    by (simp add: pad2_def pad3_def pad4_def digit_char_plain)
  then have "split_on CHR ''T'' (toISOString date) = ?a # split_on CHR ''T'' rest"
    unfolding iso by (rule split_on_first)
  then have "nowStr date = filter (\<lambda>c. c \<noteq> CHR ''-'') ?a"
    by (simp add: nowStr_def)
  also have "\<dots> = pad4 (nat y) @ pad2 m @ pad2 d"
    by (simp add: pad2_def pad3_def pad4_def digit_char_plain)
  finally show ?thesis using assms(1) by (simp add: yyyymmdd_def)
qed

text \<open>
  When the local day of the date is its UTC day, \<open>isServiceActive\<close> is the calendar of
  the specification on that day.
\<close>

lemma isServiceActive_one_day:
  assumes "Day (LocalTime date) = Day (timeValue date)"
    and "civil (Day (timeValue date)) = (y, m, d)" "0 \<le> y" "y \<le> 9999"
  shows "isServiceActive sid cal date = serviceActiveOnDay sid cal (Day (timeValue date))"
  using assms(1) nowStr_utc_day[OF assms(2-4)]
  by (auto simp: isServiceActive_def serviceActiveOnDay_def getDay_weekday split: option.splits)

lemma civil_19729: "civil 19729 = (2024, 1, 7)"
  unfolding civil_def Let_def by simp

lemma civil_19730: "civil 19730 = (2024, 1, 8)"
  unfolding civil_def Let_def by simp

text \<open>
  Claim C7. For a service of the calendar table and a date, \<open>isServiceActive\<close> is to be
  false when the date, written \<open>YYYYMMDD\<close>, is outside \<open>[startDate, endDate]\<close>, and
  otherwise the day flag of the weekday of that date. The code attempts this and misses:
  it compares the date of the UTC day with the range, and selects the day flag by the
  weekday of the local day. East of Greenwich the two days differ from midnight until
  the offset has passed (until 08:00 in Malaysia). On Monday 8 January 2024 at 01:00 in
  Malaysia the date compared is 7 January, the last day of the example service, and the
  flag selected is Monday's: the code answers that the service is active. It is active
  on neither day: 7 January is a Sunday, whose flag is not set, and 8 January is after
  the end date.
\<close>

theorem isServiceActive_utc_date_local_weekday:
  "toISOString ex_night = ''2024-01-07T17:00:00.000Z''
   \<and> nowStr ex_night = ''20240107'' \<and> getDay ex_night = 1
   \<and> Day (timeValue ex_night) = 19729 \<and> yyyymmdd 19729 = ''20240107'' \<and> weekday 19729 = 0
   \<and> Day (LocalTime ex_night) = 19730 \<and> yyyymmdd 19730 = ''20240108'' \<and> weekday 19730 = 1
   \<and> isServiceActive ''W1'' ex_week ex_night
   \<and> \<not> serviceActiveOnDay ''W1'' ex_week 19729
   \<and> \<not> serviceActiveOnDay ''W1'' ex_week 19730"
proof -
  have utc: "Day (timeValue ex_night) = 19729" and loc: "Day (LocalTime ex_night) = 19730"
    by (simp_all add: ex_night_def Day_def LocalTime_def msPerDay_def)
  have iso: "toISOString ex_night = ''2024-01-07T17:00:00.000Z''"
    unfolding toISOString_def Let_def
    by (simp add: ex_night_def Day_def msPerDay_def civil_19729 pad_defs)
  have str: "nowStr ex_night = ''20240107''"
    by (simp add: nowStr_def iso)
  have day: "getDay ex_night = 1"
    by (simp add: getDay_weekday loc weekday_def)
  have w: "weekday 19729 = 0" "weekday 19730 = 1"
    by (simp_all add: weekday_def)
  have s: "yyyymmdd 19729 = ''20240107''" "yyyymmdd 19730 = ''20240108''"
    by (simp_all add: yyyymmdd_def civil_19729 civil_19730 pad_defs)
  have code: "isServiceActive ''W1'' ex_week ex_night"
    by (simp add: isServiceActive_def ex_week_def str day day_flag_def)
  have spec: "\<not> serviceActiveOnDay ''W1'' ex_week 19729" "\<not> serviceActiveOnDay ''W1'' ex_week 19730"
    by (simp_all add: serviceActiveOnDay_def ex_week_def s w day_flag_def)
  show ?thesis using utc loc iso str day w s code spec by simp
qed

section \<open>Properties of the geometry utility and the path interpolator\<close>

subsection \<open>The great-circle distance\<close>

lemma haversine_a_alt:
  "haversine_a p1 p2 =
     (let phi1 = fst p1 * pi / 180; phi2 = fst p2 * pi / 180;
          s = (sin ((snd p2 - snd p1) * pi / 180 / 2))\<^sup>2
      in 1 / 2 - (1 - s) * cos (phi2 - phi1) / 2 + s * cos (phi1 + phi2) / 2)"
proof -
  define phi1 where "phi1 = fst p1 * pi / 180"
  define phi2 where "phi2 = fst p2 * pi / 180"
  define s where "s = (sin ((snd p2 - snd p1) * pi / 180 / 2))\<^sup>2"
  have d: "(fst p2 - fst p1) * pi / 180 = phi2 - phi1"
    by (simp add: phi1_def phi2_def algebra_simps diff_divide_distrib)
  have h: "sin ((phi2 - phi1) / 2) * sin ((phi2 - phi1) / 2) = (1 - cos (phi2 - phi1)) / 2"
  proof -
    have "2 * ((phi2 - phi1) / 2) = phi2 - phi1" by simp
    then have "cos (phi2 - phi1) = 1 - 2 * (sin ((phi2 - phi1) / 2))\<^sup>2"
      using cos_double_sin[of "(phi2 - phi1) / 2"] by (simp only:)
    then show ?thesis by (simp add: power2_eq_square)
  qed
  have c: "cos phi1 * cos phi2 = (cos (phi2 - phi1) + cos (phi1 + phi2)) / 2"
    by (simp add: cos_diff cos_add)
  have "haversine_a p1 p2
        = sin ((phi2 - phi1) / 2) * sin ((phi2 - phi1) / 2) + cos phi1 * cos phi2 * s"
    unfolding haversine_a_def Let_def d
    unfolding phi1_def[symmetric] phi2_def[symmetric] s_def power2_eq_square
    by (simp only: mult.assoc)
  also have "\<dots> = (1 - cos (phi2 - phi1)) / 2 + cos phi1 * cos phi2 * s"
    by (simp only: h)
  also have "\<dots> = 1 / 2 - (1 - s) * cos (phi2 - phi1) / 2 + s * cos (phi1 + phi2) / 2"
    unfolding c by (simp add: field_simps)
  finally show ?thesis
    by (simp add: Let_def phi1_def phi2_def s_def)
qed

lemma haversine_a_range: "0 \<le> haversine_a p1 p2 \<and> haversine_a p1 p2 \<le> 1"
proof -
  define phi1 where "phi1 = fst p1 * pi / 180"
  define phi2 where "phi2 = fst p2 * pi / 180"
  define s where "s = (sin ((snd p2 - snd p1) * pi / 180 / 2))\<^sup>2"
  define c where "c = cos (phi2 - phi1)"
  define c' where "c' = cos (phi1 + phi2)"
  have a: "haversine_a p1 p2 = 1 / 2 - (1 - s) * c / 2 + s * c' / 2"
    using haversine_a_alt[of p1 p2] by (simp add: Let_def phi1_def phi2_def s_def c_def c'_def)
  have s: "0 \<le> s" "s \<le> 1"
    unfolding s_def by (simp_all add: abs_square_le_1)
  have c: "- 1 \<le> c" "c \<le> 1" "- 1 \<le> c'" "c' \<le> 1"
    unfolding c_def c'_def by simp_all
  have 1: "(1 - s) * c \<le> (1 - s) * 1" using s c by (intro mult_left_mono) simp_all
  have 2: "(1 - s) * (- 1) \<le> (1 - s) * c" using s c by (intro mult_left_mono) simp_all
  have 3: "s * c' \<le> s * 1" using s c by (intro mult_left_mono) simp_all
  have 4: "s * (- 1) \<le> s * c'" using s c by (intro mult_left_mono) simp_all
  show ?thesis
    unfolding a using 1 2 3 4 by simp
qed

lemma atan2_nonneg: "0 \<le> y \<Longrightarrow> 0 \<le> x \<Longrightarrow> 0 \<le> atan2 y x"
  by (auto simp: atan2_def)

lemma atan2_pos: "0 < y \<Longrightarrow> 0 \<le> x \<Longrightarrow> 0 < atan2 y x"
  by (auto simp: atan2_def)

lemma haversineDistance_nonneg: "0 \<le> haversineDistance p1 p2"
  using haversine_a_range[of p1 p2]
  by (simp add: haversineDistance_def Let_def atan2_nonneg)

lemma haversineDistance_zero_iff: "haversineDistance p1 p2 = 0 \<longleftrightarrow> haversine_a p1 p2 = 0"
proof
  assume "haversine_a p1 p2 = 0"
  then show "haversineDistance p1 p2 = 0"
    by (simp add: haversineDistance_def atan2_def)
next
  assume z: "haversineDistance p1 p2 = 0"
  show "haversine_a p1 p2 = 0"
  proof (rule ccontr)
    assume "haversine_a p1 p2 \<noteq> 0"
    then have "0 < sqrt (haversine_a p1 p2)" "0 \<le> sqrt (1 - haversine_a p1 p2)"
      using haversine_a_range[of p1 p2] by simp_all
    then have "0 < atan2 (sqrt (haversine_a p1 p2)) (sqrt (1 - haversine_a p1 p2))"
      by (rule atan2_pos)
    then show False using z by (simp add: haversineDistance_def Let_def)
  qed
qed

text \<open>Away from the poles, two points of different latitude are at a distance.\<close>

lemma haversine_a_pos_lat:
  assumes "- 90 < fst p" "fst p < 90" "- 90 < fst q" "fst q < 90" "fst p \<noteq> fst q"
  shows "0 < haversine_a p q"
proof -
  define k where "k = (fst q - fst p) / 360"
  define x where "x = (fst q - fst p) * pi / 180 / 2"
  have k: "- 1 < k" "k < 1" "k \<noteq> 0"
    using assms unfolding k_def by simp_all
  have xk: "x = k * pi" unfolding x_def k_def by simp
  have "k * pi < 1 * pi" "(- 1) * pi < k * pi"
    using k pi_gt_zero by (simp_all only: mult_strict_right_mono)
  then have xr: "- pi < x" "x < pi" "x \<noteq> 0"
    using k unfolding xk by simp_all
  have "sin x \<noteq> 0"
  proof (cases "0 < x")
    case True
    then show ?thesis using xr sin_gt_zero[of x] by simp
  next
    case False
    then have "0 < - x" "- x < pi" using xr by simp_all
    then have "0 < sin (- x)" by (rule sin_gt_zero)
    then show ?thesis by simp
  qed
  then have s: "0 < sin x * sin x"
    using zero_less_power2[of "sin x"] by (simp add: power2_eq_square)
  have half: "- (pi / 2) < (y / 90) * (pi / 2) \<and> (y / 90) * (pi / 2) < pi / 2"
    if "- 90 < y" "y < 90" for y :: real
  proof -
    have "- 1 < y / 90" "y / 90 < 1" using that by simp_all
    then have "(y / 90) * (pi / 2) < 1 * (pi / 2)" "(- 1) * (pi / 2) < (y / 90) * (pi / 2)"
      using pi_gt_zero by (simp_all only: mult_strict_right_mono half_gt_zero)
    then show ?thesis by simp
  qed
  have "- (pi / 2) < fst p * pi / 180" "fst p * pi / 180 < pi / 2"
    "- (pi / 2) < fst q * pi / 180" "fst q * pi / 180 < pi / 2"
    using half[of "fst p"] half[of "fst q"] assms by simp_all
  then have c: "0 < cos (fst p * pi / 180)" "0 < cos (fst q * pi / 180)"
    by (simp_all add: cos_gt_zero_pi)
  define w where "w = sin ((snd q - snd p) * pi / 180 / 2)"
  have "0 \<le> w * w" by simp
  moreover have "0 \<le> cos (fst p * pi / 180) * cos (fst q * pi / 180)"
    using c by simp
  ultimately have "0 \<le> cos (fst p * pi / 180) * cos (fst q * pi / 180) * (w * w)"
    by (rule mult_nonneg_nonneg[rotated])
  then show ?thesis
    using s unfolding haversine_a_def Let_def x_def w_def by (simp add: mult.assoc)
qed

subsection \<open>The nearest shape point and the fallbacks of the interpolator\<close>

lemma interpolate_missing:
  "interpolatePositionOnShape None stopFrom stopTo progress = (Fin (lat stopFrom), Fin (lon stopFrom))"
  by (simp add: interpolatePositionOnShape_def)

lemma interpolate_short:
  "length pts < 2 \<Longrightarrow>
   interpolatePositionOnShape (Some pts) stopFrom stopTo progress
     = (Fin (lat stopFrom), Fin (lon stopFrom))"
  by (simp add: interpolatePositionOnShape_def)

lemma interpolate_collapsed:
  "length (shapePath pts (findClosestPointIndex pts stopFrom 0)
             (findClosestPointIndex pts stopTo (nat (findClosestPointIndex pts stopFrom 0)))) < 2 \<Longrightarrow>
   interpolatePositionOnShape (Some pts) stopFrom stopTo progress
     = (Fin (lat stopFrom), Fin (lon stopFrom))"
  by (simp add: interpolatePositionOnShape_def Let_def)

lemma length_slice_succ: "length (slice xs i (i + 1)) \<le> 1"
  by (auto simp: slice_def Let_def)

lemma shapePath_clamp:
  "idx2 < idx1 \<Longrightarrow> shapePath pts idx1 idx2 = slice pts idx1 (idx1 + 1)"
  by (simp add: shapePath_def)

lemma shapePath_same:
  "shapePath pts idx idx = slice pts idx (idx + 1)"
  by (simp add: shapePath_def)

lemma closestLoop_range:
  "i \<le> length shape \<Longrightarrow> (idx = - 1 \<and> minDesc = PosInf \<and> i = i0) \<or> (int i0 \<le> idx \<and> idx < int i \<and> (\<exists>m. minDesc = Fin m)) \<Longrightarrow>
   i0 \<le> i \<Longrightarrow> i0 < length shape \<Longrightarrow>
   int i0 \<le> closestLoop shape st i minDesc idx \<and> closestLoop shape st i minDesc idx < int (length shape)"
proof (induction shape st i minDesc idx rule: closestLoop.induct)
  case (1 shape st i minDesc idx)
  show ?case
  proof (cases "i < length shape")
    case False
    with 1 show ?thesis by auto
  next
    case True
    show ?thesis
    proof (cases "js_lt (Fin (sq_dist (shape ! i) st)) minDesc")
      case lt: True
      then show ?thesis
        using True 1 by auto
    next
      case nlt: False
      have "minDesc \<noteq> PosInf" using nlt by auto
      then show ?thesis
        using True nlt 1 by auto
    qed
  qed
qed

lemma findClosestPointIndex_range:
  "startIndex < length shape \<Longrightarrow>
   int startIndex \<le> findClosestPointIndex shape st startIndex
   \<and> findClosestPointIndex shape st startIndex < int (length shape)"
  unfolding findClosestPointIndex_def
  by (rule closestLoop_range) auto

lemma findClosest_two:
  "findClosestPointIndex [A, B] st 0 = (if sq_dist B st < sq_dist A st then 1 else 0)"
  by (simp add: findClosestPointIndex_def)

text \<open>
  Claim C5. \<open>interpolatePositionOnShape\<close> returns the coordinates of the from-stop when
  the shape is missing or has fewer than two points, and when the sub-path between the
  from-index and the to-index has fewer than two points. A to-index below the from-index
  is clamped to the from-index, which gives the same sub-path as equal indices do, of at
  most one point. (With finite coordinates the forward search never returns an index
  below its start, lemma \<open>findClosestPointIndex_range\<close>; the clamp is stated for
  arbitrary indices.)
\<close>

theorem interpolate_fallback:
  "(shape = None \<or> (\<exists>pts. shape = Some pts \<and> length pts < 2) \<longrightarrow>
      interpolatePositionOnShape shape stopFrom stopTo progress
        = (Fin (lat stopFrom), Fin (lon stopFrom)))
   \<and> (length (shapePath pts (findClosestPointIndex pts stopFrom 0)
                 (findClosestPointIndex pts stopTo (nat (findClosestPointIndex pts stopFrom 0)))) < 2
        \<longrightarrow> interpolatePositionOnShape (Some pts) stopFrom stopTo progress
              = (Fin (lat stopFrom), Fin (lon stopFrom)))
   \<and> (idx2 < idx1 \<longrightarrow>
        shapePath pts idx1 idx2 = shapePath pts idx1 idx1
        \<and> length (shapePath pts idx1 idx2) < 2)"
  using interpolate_missing[of stopFrom stopTo progress]
    interpolate_short[of _ stopFrom stopTo progress]
    interpolate_collapsed[of pts stopFrom stopTo progress]
    shapePath_clamp[of idx2 idx1 pts] shapePath_same[of pts idx1]
    length_slice_succ[of pts idx1]
  by auto

theorem interpolate_fallback_witness:
  "interpolatePositionOnShape None \<lparr>name = ''A'', lat = 0, lon = 0\<rparr>
      \<lparr>name = ''B'', lat = 0, lon = 1 / 10\<rparr> (Fin (1 / 2)) = (Fin 0, Fin 0)
   \<and> interpolatePositionOnShape (Some [(0, 0)]) \<lparr>name = ''A'', lat = 0, lon = 0\<rparr>
      \<lparr>name = ''B'', lat = 0, lon = 1 / 10\<rparr> (Fin (1 / 2)) = (Fin 0, Fin 0)
   \<and> findClosestPointIndex [(0, 0), (0, 1)] \<lparr>name = ''A'', lat = 0, lon = 0\<rparr> 0 = 0
   \<and> findClosestPointIndex [(0, 0), (0, 1)] \<lparr>name = ''B'', lat = 0, lon = 1 / 10\<rparr> 0 = 0
   \<and> shapePath [(0, 0), (0, 1)] 0 0 = [(0, 0)]
   \<and> interpolatePositionOnShape (Some [(0, 0), (0, 1)]) \<lparr>name = ''A'', lat = 0, lon = 0\<rparr>
      \<lparr>name = ''B'', lat = 0, lon = 1 / 10\<rparr> (Fin (1 / 2)) = (Fin 0, Fin 0)
   \<and> shapePath [(0, 0), (0, 1)] 1 0 = [(0, 1)]"
proof -
  let ?a = "\<lparr>name = ''A'', lat = 0, lon = 0\<rparr>"
  let ?b = "\<lparr>name = ''B'', lat = 0, lon = 1 / 10\<rparr>"
  let ?pts = "[(0, 0), (0, 1)] :: point list"
  have i1: "findClosestPointIndex ?pts ?a 0 = 0"
    by (simp add: findClosest_two sq_dist_def)
  have i2: "findClosestPointIndex ?pts ?b 0 = 0"
    by (simp add: findClosest_two sq_dist_def power2_eq_square)
  have p: "shapePath ?pts 0 0 = [(0, 0)]" "shapePath ?pts 1 1 = [(0, 1)]"
    by (simp_all add: shapePath_def slice_def)
  show ?thesis
    using interpolate_fallback[of None ?a ?b "Fin (1 / 2)" ?pts 0 1]
      interpolate_fallback[of "Some [(0, 0)]" ?a ?b "Fin (1 / 2)" ?pts 0 1]
      i1 i2 p
    by simp
qed

subsection \<open>A shape of two points\<close>

lemma sq_dist_self: "sq_dist (lat a, lon a) a = 0"
  by (simp add: sq_dist_def)

lemma sq_dist_pos: "(x, y) \<noteq> (lat a, lon a) \<Longrightarrow> 0 < sq_dist (x, y) a"
proof -
  assume "(x, y) \<noteq> (lat a, lon a)"
  then have "x - lat a \<noteq> 0 \<or> y - lon a \<noteq> 0" by auto
  then show ?thesis
    unfolding sq_dist_def by (auto simp: sum_power2_gt_zero_iff)
qed

lemma haversine_a_self: "haversine_a p p = 0"
  by (simp add: haversine_a_def)

lemma haversineDistance_self: "haversineDistance p p = 0"
  by (simp add: haversineDistance_def haversine_a_self atan2_def)

lemma walkPath_two:
  assumes "0 < haversineDistance A B" "p \<le> 1"
  shows "walkPath [A, B] (Fin p)
         = (Fin (fst A + (fst B - fst A) * p), Fin (snd A + (snd B - snd A) * p))"
proof -
  have "haversineDistance A B * p \<le> haversineDistance A B * 1"
    using assms by (intro mult_left_mono) simp_all
  then show ?thesis
    using assms(1) by (simp add: walkPath_def Let_def js_ge_def js_sub_def)
qed

lemma interpolate_two_point_half:
  assumes "0 < haversineDistance (lat a, lon a) (lat b, lon b)"
  shows "interpolatePositionOnShape (Some [(lat a, lon a), (lat b, lon b)]) a b (Fin (1 / 2))
         = (Fin ((lat a + lat b) / 2), Fin ((lon a + lon b) / 2))"
proof -
  let ?A = "(lat a, lon a)" and ?B = "(lat b, lon b)"
  have ne: "?A \<noteq> ?B"
    using assms haversineDistance_self[of ?A] by auto
  have da: "0 < sq_dist ?B a" using ne by (intro sq_dist_pos) auto
  have db: "0 < sq_dist ?A b" using ne by (intro sq_dist_pos) auto
  have i1: "findClosestPointIndex [?A, ?B] a 0 = 0"
    using da by (simp add: findClosest_two sq_dist_self)
  have i2: "findClosestPointIndex [?A, ?B] b 0 = 1"
    using db by (simp add: findClosest_two sq_dist_self)
  have p: "shapePath [?A, ?B] 0 1 = [?A, ?B]"
    by (simp add: shapePath_def slice_def)
  show ?thesis
    using walkPath_two[OF assms, of "1 / 2"]
    by (simp add: interpolatePositionOnShape_def Let_def i1 i2 p field_simps)
qed
lemma hav_pole: "haversineDistance (90, 0) (90, x) = 0"
  by (simp add: haversineDistance_def haversine_a_def atan2_def)

lemma interpolate_pole:
  assumes "x \<noteq> 0"
  shows "interpolatePositionOnShape (Some [(90, 0), (90, x)])
     \<lparr>name = ''A'', lat = 90, lon = 0\<rparr> \<lparr>name = ''B'', lat = 90, lon = x\<rparr> (Fin (1 / 2))
   = (NaN, NaN)"
proof -
  let ?a = "\<lparr>name = ''A'', lat = 90, lon = 0\<rparr>"
  let ?b = "\<lparr>name = ''B'', lat = 90, lon = x\<rparr>"
  let ?pts = "[(90, 0), (90, x)] :: point list"
  have i1: "findClosestPointIndex ?pts ?a 0 = 0"
    by (simp add: findClosest_two sq_dist_def)
  have i2: "findClosestPointIndex ?pts ?b 0 = 1"
    using assms by (simp add: findClosest_two sq_dist_def)
  have p: "shapePath ?pts 0 1 = ?pts"
    by (simp add: shapePath_def slice_def)
  have w: "walkPath ?pts (Fin (1 / 2)) = (NaN, NaN)"
    by (simp add: walkPath_def hav_pole js_ge_def js_sub_def)
  show ?thesis
    by (simp add: interpolatePositionOnShape_def Let_def i1 i2 p w)
qed

text \<open>
  Claim C6, as stated, fails. The code divides by the length of the segment,
  \<open>(targetDist - currentDist) / d\<close>. Two stops at the north pole with different
  longitudes are distinct coordinates at great-circle distance 0: the only segment has
  length 0, the quotient is \<open>0 / 0\<close> and the result is \<open>[NaN, NaN]\<close>, not the midpoint
  \<open>(90, 5e-151)\<close>. The longitude \<open>1e-150\<close> is chosen so that the distance is 0 in
  double arithmetic as well (the product with the squared sine underflows).
\<close>

theorem interpolate_midpoint_counterexample:
  "(90, 0) \<noteq> ((90, 1 / 10 ^ 150) :: point)
   \<and> interpolatePositionOnShape (Some [(90, 0), (90, 1 / 10 ^ 150)])
     \<lparr>name = ''A'', lat = 90, lon = 0\<rparr> \<lparr>name = ''B'', lat = 90, lon = 1 / 10 ^ 150\<rparr> (Fin (1 / 2))
   = (NaN, NaN)"
proof -
  have ne: "(1 / 10 ^ 150 :: real) \<noteq> 0" by simp
  have "(90, 0) \<noteq> ((90, 1 / 10 ^ 150) :: point)" using ne by simp
  then show ?thesis
    using interpolate_pole[OF ne] by (rule conjI)
qed

text \<open>
  Claim C6, amended. For two stops A and B whose great-circle distance, as
  \<open>haversineDistance\<close> computes it, is not zero (so A and B are distinct),
  \<open>interpolatePositionOnShape\<close> on the shape \<open>[A, B]\<close> from A to B at progress 0.5
  returns the midpoint: the average of the latitudes and the average of the longitudes.
\<close>

theorem interpolate_midpoint_nonzero:
  assumes "haversineDistance (lat a, lon a) (lat b, lon b) \<noteq> 0"
  shows "interpolatePositionOnShape (Some [(lat a, lon a), (lat b, lon b)]) a b (Fin (1 / 2))
         = (Fin ((lat a + lat b) / 2), Fin ((lon a + lon b) / 2))"
proof -
  have "0 < haversineDistance (lat a, lon a) (lat b, lon b)"
    using assms haversineDistance_nonneg[of "(lat a, lon a)" "(lat b, lon b)"] by simp
  then show ?thesis by (rule interpolate_two_point_half)
qed

lemma ex_stops_apart: "haversineDistance (lat ex_stop1, lon ex_stop1) (lat ex_stop2, lon ex_stop2) \<noteq> 0"
proof -
  have "0 < haversine_a (lat ex_stop1, lon ex_stop1) (lat ex_stop2, lon ex_stop2)"
    by (rule haversine_a_pos_lat) (simp_all add: ex_stop1_def ex_stop2_def)
  then show ?thesis by (simp add: haversineDistance_zero_iff)
qed

theorem interpolate_midpoint_nonzero_witness:
  "haversineDistance (lat ex_stop1, lon ex_stop1) (lat ex_stop2, lon ex_stop2) \<noteq> 0
   \<and> interpolatePositionOnShape (Some [(6, 102), (7, 103)]) ex_stop1 ex_stop2 (Fin (1 / 2))
      = (Fin (13 / 2), Fin (205 / 2))"
  using ex_stops_apart interpolate_midpoint_nonzero[of ex_stop1 ex_stop2]
  by (simp add: ex_stop1_def ex_stop2_def)


section \<open>Properties of the stop-schedule index\<close>

subsection \<open>Sorting by time\<close>

lemma set_insert_by: "set (insert_by cmp x xs) = insert x (set xs)"
  by (induction xs) auto

lemma set_array_sort_aux:
  "set (foldl (\<lambda>sorted x. insert_by cmp x sorted) acc xs) = set acc \<union> set xs"
  by (induction xs arbitrary: acc) (auto simp: set_insert_by)

lemma set_array_sort: "set (array_sort cmp xs) = set xs"
  by (simp add: array_sort_def set_array_sort_aux)

lemma byTime_lt: "time a = Some x \<Longrightarrow> time b = Some y \<Longrightarrow> js_lt (byTime a b) (Fin 0) = (x < y)"
  by (simp add: byTime_def js_sub_def)

lemma time_le_num: "time a = Some x \<Longrightarrow> time b = Some y \<Longrightarrow> time_le a b = (x \<le> y)"
  by (simp add: time_le_def)

lemma sorted_insert_by:
  assumes "sorted_wrt time_le xs" "time x \<noteq> None" "\<forall>e \<in> set xs. time e \<noteq> None"
  shows "sorted_wrt time_le (insert_by byTime x xs)"
  using assms
proof (induction xs)
  case Nil
  show ?case by simp
next
  case (Cons y ys)
  obtain tx where tx: "time x = Some tx" using Cons.prems by auto
  obtain ty where ty: "time y = Some ty" using Cons.prems by auto
  show ?case
  proof (cases "tx < ty")
    case True
    have "time_le x z" if zin: "z \<in> set (y # ys)" for z
    proof -
      obtain tz where tz: "time z = Some tz" using Cons.prems zin by auto
      have "time_le y z \<or> z = y" using Cons.prems(1) zin by auto
      then have "ty \<le> tz" using ty tz by (auto simp: time_le_num)
      then show ?thesis using True tx tz by (simp add: time_le_num)
    qed
    then show ?thesis
      using True Cons.prems(1) by (simp add: byTime_lt[OF tx ty])
  next
    case False
    have yx: "time_le y x" using False tx ty by (simp add: time_le_num)
    have "sorted_wrt time_le (insert_by byTime x ys)"
      using Cons by simp
    then show ?thesis
      using False Cons.prems(1) yx by (auto simp: byTime_lt[OF tx ty] set_insert_by)
  qed
qed

lemma sorted_array_sort_aux:
  assumes "sorted_wrt time_le acc" "\<forall>e \<in> set acc \<union> set xs. time e \<noteq> None"
  shows "sorted_wrt time_le (foldl (\<lambda>sorted x. insert_by byTime x sorted) acc xs)"
  using assms
proof (induction xs arbitrary: acc)
  case Nil
  then show ?case by simp
next
  case (Cons x xs)
  have "sorted_wrt time_le (insert_by byTime x acc)"
    using Cons.prems by (intro sorted_insert_by) auto
  then show ?case
    using Cons.prems by (auto intro!: Cons.IH simp: set_insert_by)
qed

lemma sorted_array_sort:
  "\<forall>e \<in> set xs. time e \<noteq> None \<Longrightarrow> sorted_wrt time_le (array_sort byTime xs)"
  unfolding array_sort_def by (rule sorted_array_sort_aux) auto

lemma entries_addStop:
  "entries_of (addStop r tr m st) = insert (stopId st, entry_for r tr st) (entries_of m)"
  by (auto simp: entries_of_def addStop_def entry_for_def split: option.splits if_splits)

lemma entries_addTrip_aux:
  "entries_of (foldl (addStop r tr) m sts)
   = entries_of m \<union> {(stopId st, entry_for r tr st) | st. st \<in> set sts}"
  by (induction sts arbitrary: m) (auto simp: entries_addStop)

lemma entries_addTrip:
  "entries_of (addTrip r m tr)
   = entries_of m \<union> {(stopId st, entry_for r tr st) | st. st \<in> set (stops tr)}"
  by (simp add: addTrip_def entries_addTrip_aux)

lemma entries_trips:
  "entries_of (foldl (addTrip r) m trs)
   = entries_of m \<union> {(stopId st, entry_for r tr st) | tr st. tr \<in> set trs \<and> st \<in> set (stops tr)}"
  by (induction trs arbitrary: m) (auto simp: entries_addTrip)

lemma entries_addRoute:
  "entries_of (addRoute rs m entry) = entries_of m \<union> route_entries rs entry"
  by (simp add: addRoute_def route_entries_def entries_trips split: option.splits)

lemma entries_routes:
  "entries_of (foldl (addRoute rs) m sched) = entries_of m \<union> (\<Union>entry \<in> set sched. route_entries rs entry)"
  by (induction sched arbitrary: m) (auto simp: entries_addRoute)

lemma entries_empty: "entries_of Map.empty = {}"
  by (simp add: entries_of_def)

lemma entries_precalculate:
  "entries_of (precalculateStopSchedules sched rs cal) = (\<Union>entry \<in> set sched. route_entries rs entry)"
proof -
  have "entries_of (precalculateStopSchedules sched rs cal)
        = entries_of (foldl (addRoute rs) Map.empty sched)"
    by (auto simp: entries_of_def precalculateStopSchedules_def Let_def set_array_sort)
  then show ?thesis by (simp add: entries_routes entries_empty)
qed

lemma precalculate_sorted:
  assumes "precalculateStopSchedules sched rs cal sid = Some l" "\<forall>e \<in> set l. time e \<noteq> None"
  shows "sorted_wrt time_le l"
proof -
  from assms(1) obtain l0 where l0: "l = array_sort byTime l0"
    by (auto simp: precalculateStopSchedules_def Let_def)
  then have "\<forall>e \<in> set l0. time e \<noteq> None" using assms(2) by (simp add: set_array_sort)
  then show ?thesis unfolding l0 by (rule sorted_array_sort)
qed

lemma precalculate_complete:
  assumes "(rid, trips) \<in> set sched" "find (\<lambda>r. route_id r = rid) rs = Some r"
    "tr \<in> set trips" "st \<in> set (stops tr)"
  shows "\<exists>l. precalculateStopSchedules sched rs cal (stopId st) = Some l \<and> entry_for r tr st \<in> set l"
proof -
  have "(stopId st, entry_for r tr st) \<in> route_entries rs (rid, trips)"
    using assms by (auto simp: route_entries_def)
  then have "(stopId st, entry_for r tr st) \<in> entries_of (precalculateStopSchedules sched rs cal)"
    using assms(1) unfolding entries_precalculate by blast
  then show ?thesis by (simp add: entries_of_def)
qed

lemma precalculate_no_route:
  "find (\<lambda>r. route_id r = rid) rs = None \<Longrightarrow> precalculateStopSchedules [(rid, trips)] rs cal sid = None"
  by (simp add: precalculateStopSchedules_def addRoute_def)


lemma sorted_times:
  assumes "sorted_wrt time_le l" "\<forall>e \<in> set l. time e \<noteq> None"
  shows "sorted (map (\<lambda>e. the (time e)) l)"
proof -
  have "sorted_wrt (\<lambda>a b. the (time a) \<le> the (time b)) l"
    using assms(1)
  proof (rule sorted_wrt_mono_rel[rotated])
    fix a b assume ab: "a \<in> set l" "b \<in> set l" "time_le a b"
    have "time a \<noteq> None" "time b \<noteq> None"
      using ab(1,2) assms(2) by blast+
    then obtain x y where "time a = Some x" "time b = Some y"
      by blast
    then show "the (time a) \<le> the (time b)"
      using ab(3) by (simp add: time_le_num)
  qed
  then show ?thesis by (simp add: sorted_map)
qed

lemma timeToSeconds_0800: "timeToSeconds ''08:00:00'' = Some 28800"
  by (simp add: timeToSeconds_def Number_def dec_def digit_val_def is_digit_def)

lemma timeToSeconds_0900: "timeToSeconds ''09:00:00'' = Some 32400"
  by (simp add: timeToSeconds_def Number_def dec_def digit_val_def is_digit_def)

text \<open>
  Claim C2, as stated, fails: an entry of the schedule table whose route id has no
  record in the routes list is skipped (\<open>if (!route) return\<close>), so its stop-times get
  no entry in the index.
\<close>

theorem index_unknown_route_counterexample:
  "precalculateStopSchedules
     [(''R2'', [\<lparr>tripId = ''T1'', serviceId = ''WD'', shapeId = ''SH1'', headsign = ''Town'',
                 stops = [\<lparr>stopId = ''S1'', arrival = ''08:00:00'', departure = ''08:00:00''\<rparr>]\<rparr>])]
     [\<lparr>route_id = ''R1'', shortName = ''1'', longName = ''Line 1'', color = ''#FF3B30'',
       textColor = ''#ffffff''\<rparr>]
     Map.empty ''S1''
   = None"
  by (simp add: precalculate_no_route)

text \<open>
  Claim C2, amended. For every entry of the schedule table whose route id has a record
  in the routes list (the first such record is the owning route), every trip of the
  entry and every stop-time of the trip, the list of that stop in the index holds an
  entry with the departure time in seconds, the owning route, the trip id, the service
  id and the headsign. Every list of the index whose times are numbers is sorted
  ascending by time.
\<close>

theorem index_entries_sorted:
  "((rid, trips) \<in> set sched \<and> find (\<lambda>r. route_id r = rid) rs = Some r
      \<and> tr \<in> set trips \<and> st \<in> set (stops tr)
      \<longrightarrow> (\<exists>l. precalculateStopSchedules sched rs cal (stopId st) = Some l
               \<and> \<lparr>time = timeToSeconds (departure st), route = r, e_tripId = tripId tr,
                    e_serviceId = serviceId tr, e_headsign = headsign tr\<rparr> \<in> set l))
   \<and> (precalculateStopSchedules sched rs cal sid = Some l' \<and> (\<forall>e \<in> set l'. time e \<noteq> None)
      \<longrightarrow> sorted (map (\<lambda>e. the (time e)) l'))"
  using precalculate_complete[of rid trips sched rs r tr st cal]
    precalculate_sorted[of sched rs cal sid l'] sorted_times[of l']
  by (auto simp: entry_for_def)

theorem index_entries_sorted_witness:
  "(''R1'', [\<lparr>tripId = ''T9'', serviceId = ''WD'', shapeId = ''SH1'', headsign = ''Town'',
               stops = [\<lparr>stopId = ''S1'', arrival = ''09:00:00'', departure = ''09:00:00''\<rparr>]\<rparr>,
             \<lparr>tripId = ''T8'', serviceId = ''WD'', shapeId = ''SH1'', headsign = ''Town'',
               stops = [\<lparr>stopId = ''S1'', arrival = ''08:00:00'', departure = ''08:00:00''\<rparr>]\<rparr>])
     \<in> set [(''R1'', [\<lparr>tripId = ''T9'', serviceId = ''WD'', shapeId = ''SH1'', headsign = ''Town'',
               stops = [\<lparr>stopId = ''S1'', arrival = ''09:00:00'', departure = ''09:00:00''\<rparr>]\<rparr>,
             \<lparr>tripId = ''T8'', serviceId = ''WD'', shapeId = ''SH1'', headsign = ''Town'',
               stops = [\<lparr>stopId = ''S1'', arrival = ''08:00:00'', departure = ''08:00:00''\<rparr>]\<rparr>])]
   \<and> precalculateStopSchedules
        [(''R1'', [\<lparr>tripId = ''T9'', serviceId = ''WD'', shapeId = ''SH1'', headsign = ''Town'',
               stops = [\<lparr>stopId = ''S1'', arrival = ''09:00:00'', departure = ''09:00:00''\<rparr>]\<rparr>,
             \<lparr>tripId = ''T8'', serviceId = ''WD'', shapeId = ''SH1'', headsign = ''Town'',
               stops = [\<lparr>stopId = ''S1'', arrival = ''08:00:00'', departure = ''08:00:00''\<rparr>]\<rparr>])]
        [\<lparr>route_id = ''R1'', shortName = ''1'', longName = ''Line 1'', color = ''#FF3B30'',
          textColor = ''#ffffff''\<rparr>]
        Map.empty ''S1''
      = Some [\<lparr>time = Some 28800,
                route = \<lparr>route_id = ''R1'', shortName = ''1'', longName = ''Line 1'',
                          color = ''#FF3B30'', textColor = ''#ffffff''\<rparr>,
                e_tripId = ''T8'', e_serviceId = ''WD'', e_headsign = ''Town''\<rparr>,
              \<lparr>time = Some 32400,
                route = \<lparr>route_id = ''R1'', shortName = ''1'', longName = ''Line 1'',
                          color = ''#FF3B30'', textColor = ''#ffffff''\<rparr>,
                e_tripId = ''T9'', e_serviceId = ''WD'', e_headsign = ''Town''\<rparr>]
   \<and> sorted [28800, 32400 :: int]"
proof -
  let ?r = "\<lparr>route_id = ''R1'', shortName = ''1'', longName = ''Line 1'', color = ''#FF3B30'',
              textColor = ''#ffffff''\<rparr>"
  let ?s9 = "\<lparr>stopId = ''S1'', arrival = ''09:00:00'', departure = ''09:00:00''\<rparr>"
  let ?s8 = "\<lparr>stopId = ''S1'', arrival = ''08:00:00'', departure = ''08:00:00''\<rparr>"
  let ?t9 = "\<lparr>tripId = ''T9'', serviceId = ''WD'', shapeId = ''SH1'', headsign = ''Town'',
               stops = [?s9]\<rparr>"
  let ?t8 = "\<lparr>tripId = ''T8'', serviceId = ''WD'', shapeId = ''SH1'', headsign = ''Town'',
               stops = [?s8]\<rparr>"
  let ?sched = "[(''R1'', [?t9, ?t8])]"
  let ?e8 = "\<lparr>time = Some 28800, route = ?r, e_tripId = ''T8'', e_serviceId = ''WD'',
               e_headsign = ''Town''\<rparr>"
  let ?e9 = "\<lparr>time = Some 32400, route = ?r, e_tripId = ''T9'', e_serviceId = ''WD'',
               e_headsign = ''Town''\<rparr>"
  have idx: "precalculateStopSchedules ?sched [?r] Map.empty ''S1'' = Some [?e8, ?e9]"
    by (simp add: precalculateStopSchedules_def addRoute_def addTrip_def addStop_def
        array_sort_def byTime_def js_sub_def timeToSeconds_0800 timeToSeconds_0900)
  have hyps: "(''R1'', [?t9, ?t8]) \<in> set ?sched" "find (\<lambda>r. route_id r = ''R1'') [?r] = Some ?r"
    "?t8 \<in> set [?t9, ?t8]" "?s8 \<in> set (stops ?t8)" "\<forall>e \<in> set [?e8, ?e9]. time e \<noteq> None"
    by simp_all
  show ?thesis
    using index_entries_sorted[of "''R1''" "[?t9, ?t8]" ?sched "[?r]" ?r ?t8 ?s8 Map.empty
        "''S1''" "[?e8, ?e9]"] idx hyps
    by simp
qed

subsection \<open>The next arrival\<close>









text \<open>The example service is active on the example day; no service \<open>SAT\<close> exists.\<close>

lemma ex_active: "isServiceActive ''WD'' ex_calendar ex_now"
  by (simp add: isServiceActive_def ex_calendar_def ex_service_def ex_now_str ex_now_day day_flag_def)


section \<open>Properties of the trip simulation engine\<close>

subsection \<open>Comparisons\<close>

lemma js_le_trans: "js_le a b \<Longrightarrow> js_le b c \<Longrightarrow> js_le a c"
  by (cases a; cases b; cases c) auto


lemma js_lt_le_trans: "js_lt a b \<Longrightarrow> js_le b c \<Longrightarrow> js_lt a c"
  by (cases a; cases b; cases c) auto

lemma js_lt_imp_le: "js_lt a b \<Longrightarrow> js_le a b"
  by (cases a; cases b) auto

lemma js_lt_not_le: "js_lt a b \<Longrightarrow> \<not> js_le b a"
  by (cases a; cases b) auto

lemma js_le_refl_left: "js_le a b \<Longrightarrow> js_le a a"
  by (cases a; cases b) auto


subsection \<open>The scan\<close>

lemma moving_at_Cons: "moving_at t (s # ss) (Suc j) = moving_at t ss j"
  by (simp add: moving_at_def)

lemma dwelling_at_Cons: "dwelling_at t (s # ss) (Suc j) = dwelling_at t ss j"
  by (simp add: dwelling_at_def)

lemma scan_reaches_Cons: "scan_reaches t (s # ss) (Suc i) \<Longrightarrow> scan_reaches t ss i"
  unfolding scan_reaches_def
proof (intro allI impI)
  fix j assume a: "\<forall>j<Suc i. \<not> moving_at t (s # ss) j \<and> \<not> dwelling_at t (s # ss) j" and "j < i"
  then have "\<not> moving_at t (s # ss) (Suc j) \<and> \<not> dwelling_at t (s # ss) (Suc j)" by simp
  then show "\<not> moving_at t ss j \<and> \<not> dwelling_at t ss j"
    by (simp add: moving_at_Cons dwelling_at_Cons)
qed

lemma findSegment_head:
  "findSegment t (s1 # s2 # rest) =
     (if moving_at t (s1 # s2 # rest) 0
      then Some (MovingSeg s1 s2 (progressOf t (timeToSeconds (departure s1)) (timeToSeconds (arrival s2))))
      else if dwelling_at t (s1 # s2 # rest) 0 then Some (DwellingSeg s1)
      else findSegment t (s2 # rest))"
  by (simp add: moving_at_def dwelling_at_def arrivalSec_def departureSec_def Let_def)

lemma findSegment_reach:
  assumes "Suc i < length ss" "scan_reaches t ss i"
  shows "findSegment t ss =
     (if moving_at t ss i
      then Some (MovingSeg (ss ! i) (ss ! Suc i)
                  (progressOf t (timeToSeconds (departure (ss ! i)))
                     (timeToSeconds (arrival (ss ! Suc i)))))
      else if dwelling_at t ss i then Some (DwellingSeg (ss ! i))
      else findSegment t (drop (Suc i) ss))"
  using assms
proof (induction i arbitrary: ss)
  case 0
  then obtain s1 s2 rest where ss: "ss = s1 # s2 # rest"
    by (cases ss; cases "tl ss") auto
  show ?case unfolding ss by (simp add: findSegment_head del: findSegment.simps)
next
  case (Suc i)
  then obtain s1 s2 rest where ss: "ss = s1 # s2 # rest"
    by (cases ss; cases "tl ss") auto
  have no0: "\<not> moving_at t ss 0" "\<not> dwelling_at t ss 0"
    using Suc.prems(2) by (simp_all add: scan_reaches_def)
  have step: "findSegment t ss = findSegment t (s2 # rest)"
    using no0 unfolding ss by (simp add: findSegment_head del: findSegment.simps)
  have "Suc i < length (s2 # rest)" using Suc.prems(1) ss by simp
  moreover have "scan_reaches t (s2 # rest) i"
    using Suc.prems(2) unfolding ss by (rule scan_reaches_Cons)
  ultimately have "findSegment t (s2 # rest) =
     (if moving_at t (s2 # rest) i
      then Some (MovingSeg ((s2 # rest) ! i) ((s2 # rest) ! Suc i)
                  (progressOf t (timeToSeconds (departure ((s2 # rest) ! i)))
                     (timeToSeconds (arrival ((s2 # rest) ! Suc i)))))
      else if dwelling_at t (s2 # rest) i then Some (DwellingSeg ((s2 # rest) ! i))
      else findSegment t (drop (Suc i) (s2 # rest)))"
    by (rule Suc.IH)
  then show ?case
    unfolding step unfolding ss
    by (simp add: moving_at_Cons dwelling_at_Cons del: findSegment.simps)
qed

subsection \<open>Ordered times\<close>

lemma ordered_times_tl: "ordered_times (s # ss) \<Longrightarrow> ordered_times ss"
  by (cases ss) simp_all

lemma ordered_times_nth:
  "ordered_times ss \<Longrightarrow> i < length ss \<Longrightarrow> js_le (arrivalSec (ss ! i)) (departureSec (ss ! i))"
proof (induction ss arbitrary: i)
  case Nil
  then show ?case by simp
next
  case (Cons s ss)
  show ?case
  proof (cases i)
    case 0
    then show ?thesis using Cons.prems by (cases ss) simp_all
  next
    case (Suc k)
    then show ?thesis using Cons ordered_times_tl[of s ss] by simp
  qed
qed

lemma ordered_times_step:
  "ordered_times ss \<Longrightarrow> Suc i < length ss \<Longrightarrow>
   js_le (departureSec (ss ! i)) (arrivalSec (ss ! Suc i))"
proof (induction ss arbitrary: i)
  case Nil
  then show ?case by simp
next
  case (Cons s ss)
  show ?case
  proof (cases i)
    case 0
    then show ?thesis using Cons.prems by (cases ss) simp_all
  next
    case (Suc k)
    then show ?thesis using Cons ordered_times_tl[of s ss] by simp
  qed
qed

lemma ordered_dep_arr:
  "ordered_times ss \<Longrightarrow> j < i \<Longrightarrow> i < length ss \<Longrightarrow>
   js_le (departureSec (ss ! j)) (arrivalSec (ss ! i))"
proof (induction i)
  case 0
  then show ?case by simp
next
  case (Suc k)
  have last: "js_le (departureSec (ss ! k)) (arrivalSec (ss ! Suc k))"
    using Suc.prems by (simp add: ordered_times_step)
  show ?case
  proof (cases "j = k")
    case True
    then show ?thesis using last by simp
  next
    case False
    then have "js_le (departureSec (ss ! j)) (arrivalSec (ss ! k))"
      using Suc by simp
    moreover have "js_le (arrivalSec (ss ! k)) (departureSec (ss ! k))"
      using Suc.prems by (simp add: ordered_times_nth)
    ultimately show ?thesis using last by (blast intro: js_le_trans)
  qed
qed

lemma ordered_arr_arr:
  assumes "ordered_times ss" "j \<le> i" "i < length ss"
  shows "js_le (arrivalSec (ss ! j)) (arrivalSec (ss ! i))"
proof (cases "j = i")
  case True
  then show ?thesis
    using ordered_times_nth[OF assms(1) assms(3)] by (auto intro: js_le_refl_left)
next
  case False
  then have "j < i" using assms(2) by simp
  then have "js_le (departureSec (ss ! j)) (arrivalSec (ss ! i))"
    using assms by (simp add: ordered_dep_arr)
  moreover have "js_le (arrivalSec (ss ! j)) (departureSec (ss ! j))"
    using assms by (simp add: ordered_times_nth)
  ultimately show ?thesis by (blast intro: js_le_trans)
qed


text \<open>With ordered times, a time after the arrival at stop \<open>i\<close> passes no earlier test.\<close>

lemma ordered_scan_reaches:
  assumes "ordered_times ss" "i < length ss" "js_lt (arrivalSec (ss ! i)) (Fin (real_of_int t))"
  shows "scan_reaches t ss i"
  unfolding scan_reaches_def
proof (intro allI impI conjI)
  fix j assume ji: "j < i"
  show "\<not> moving_at t ss j"
  proof
    assume "moving_at t ss j"
    then have "js_le (Fin (real_of_int t)) (arrivalSec (ss ! Suc j))"
      by (simp add: moving_at_def)
    moreover have "js_le (arrivalSec (ss ! Suc j)) (arrivalSec (ss ! i))"
      using assms ji by (intro ordered_arr_arr) simp_all
    ultimately have "js_le (Fin (real_of_int t)) (arrivalSec (ss ! i))"
      by (rule js_le_trans)
    then show False using assms(3) by (simp add: js_lt_not_le)
  qed
  show "\<not> dwelling_at t ss j"
  proof
    assume "dwelling_at t ss j"
    then have "js_lt (Fin (real_of_int t)) (departureSec (ss ! j))"
      by (simp add: dwelling_at_def)
    moreover have "js_le (departureSec (ss ! j)) (arrivalSec (ss ! i))"
      using assms ji by (intro ordered_dep_arr) simp_all
    ultimately have "js_lt (Fin (real_of_int t)) (arrivalSec (ss ! i))"
      by (rule js_lt_le_trans)
    then show False using assms(3) by (auto dest: js_lt_imp_le js_lt_not_le)
  qed
qed

subsection \<open>One trip\<close>

text \<open>
  After a record, an inherited member as the second stop leaves the fallback: the index
  -1 is below the index of the first stop, the clamp makes the two indices equal, and
  the path has one point.
\<close>

lemma interpolateStops_member_to:
  "interpolateStops shape (Record stop1) Member progress = Inr (Fin (lat stop1), Fin (lon stop1))"
proof (cases shape)
  case None
  then show ?thesis by simp
next
  case (Some pts)
  show ?thesis
  proof (cases "length pts < 2")
    case True
    then show ?thesis using Some by simp
  next
    case False
    then have "0 < length pts" by (cases pts) simp_all
    then have "- 1 < findClosestPointIndex pts stop1 0"
      using findClosestPointIndex_range[of 0 pts stop1] by simp
    then have "shapePath pts (findClosestPointIndex pts stop1 0) (- 1)
               = slice pts (findClosestPointIndex pts stop1 0) (findClosestPointIndex pts stop1 0 + 1)"
      by (rule shapePath_clamp)
    then have "length (shapePath pts (findClosestPointIndex pts stop1 0) (- 1)) < 2"
      using length_slice_succ[of pts "findClosestPointIndex pts stop1 0"] by simp
    then show ?thesis using Some False by (simp add: Let_def)
  qed
qed

lemma stopsGet_entry: "table k = Some st \<Longrightarrow> stopsGet table k = Some (Record st)"
  by (simp add: stopsGet_def)

lemma stopsGet_None:
  "stopsGet table k = None \<longleftrightarrow> table k = None \<and> k \<notin> set prototype_members"
  by (simp add: stopsGet_def split: option.splits)

lemma stopsGet_Member:
  "stopsGet table k = Some Member \<longleftrightarrow> table k = None \<and> k \<in> set prototype_members"
  by (simp add: stopsGet_def split: option.splits)

lemma stopsGet_Record: "stopsGet table k = Some (Record st) \<longleftrightarrow> table k = Some st"
  by (simp add: stopsGet_def split: option.splits)

lemma simulateTrip_inactive:
  "\<not> isServiceActive (serviceId tr) (calendar d) now \<Longrightarrow> simulateTrip d now t rid tr = Inr None"
  by (simp add: simulateTrip_def)

lemma simulateTrip_no_stops:
  "isServiceActive (serviceId tr) (calendar d) now \<Longrightarrow> stops tr = [] \<Longrightarrow>
   simulateTrip d now t rid tr = Inl TypeError"
  by (simp add: simulateTrip_def)

lemma simulateTrip_outside:
  "stops tr \<noteq> [] \<Longrightarrow> \<not> in_window t (stops tr) \<Longrightarrow> simulateTrip d now t rid tr = Inr None"
  by (cases "stops tr") (auto simp: simulateTrip_def in_window_def arrivalSec_def departureSec_def Let_def)

lemma simulateTrip_inside:
  assumes "isServiceActive (serviceId tr) (calendar d) now" "stops tr \<noteq> []" "in_window t (stops tr)"
  shows "simulateTrip d now t rid tr =
     (case findSegment t (stops tr) of
        None \<Rightarrow> Inr None
      | Some seg \<Rightarrow>
          (case segmentPosition d tr seg of
             Inl e \<Rightarrow> Inl e
           | Inr None \<Rightarrow> Inr None
           | Inr (Some pos) \<Rightarrow> Inr (Some (vehicle_of d rid tr pos (segmentType seg)))))"
  using assms
  by (cases "stops tr")
     (auto simp: simulateTrip_def in_window_def arrivalSec_def departureSec_def Let_def vehicle_of_def
           split: option.splits sum.splits)

lemma simulateTrip_schedule: "simulateTrip (d\<lparr>schedule := x\<rparr>) now t rid tr = simulateTrip d now t rid tr"
proof -
  have "segmentPosition (d\<lparr>schedule := x\<rparr>) tr seg = segmentPosition d tr seg" for seg
    by (cases seg) (simp_all split: option.splits)
  then show ?thesis
    by (simp add: simulateTrip_def Let_def split: list.splits option.splits sum.splits)
qed

text \<open>A vehicle, when there is one, carries the position and the type of the segment found.\<close>

lemma simulateTrip_Some:
  assumes "simulateTrip d now t rid tr = Inr (Some v)"
  shows "\<exists>seg pos. findSegment t (stops tr) = Some seg
           \<and> segmentPosition d tr seg = Inr (Some pos)
           \<and> v = vehicle_of d rid tr pos (segmentType seg)"
proof -
  have a: "isServiceActive (serviceId tr) (calendar d) now"
    using assms by (auto simp: simulateTrip_def split: if_splits)
  have s: "stops tr \<noteq> []"
    using assms a by (auto simp: simulateTrip_def)
  have w: "in_window t (stops tr)"
    using assms s simulateTrip_outside[of tr t d now rid] by auto
  show ?thesis
    using assms unfolding simulateTrip_inside[OF a s w]
    by (auto split: option.splits sum.splits)
qed

subsection \<open>The window\<close>


subsection \<open>No gap\<close>



subsection \<open>The loops\<close>

lemma tripsLoop_append:
  "tripsLoop d now t rid (xs @ ys) acc =
     (case tripsLoop d now t rid xs acc of
        Inl e \<Rightarrow> Inl e
      | Inr acc' \<Rightarrow> tripsLoop d now t rid ys acc')"
  by (induction xs arbitrary: acc) (auto split: sum.splits option.splits)

lemma routesLoop_append:
  "routesLoop d now t (xs @ ys) acc =
     (case routesLoop d now t xs acc of
        Inl e \<Rightarrow> Inl e
      | Inr acc' \<Rightarrow> routesLoop d now t ys acc')"
  by (induction xs arbitrary: acc) (auto split: sum.splits)

lemma tripsLoop_schedule:
  "tripsLoop (d\<lparr>schedule := x\<rparr>) now t rid trs acc = tripsLoop d now t rid trs acc"
  by (induction trs arbitrary: acc)
     (simp_all add: simulateTrip_schedule split: sum.splits option.splits)

lemma routesLoop_schedule:
  "routesLoop (d\<lparr>schedule := x\<rparr>) now t sched acc = routesLoop d now t sched acc"
  by (induction sched arbitrary: acc) (auto simp: tripsLoop_schedule split: sum.splits)

lemma tripsLoop_skip:
  assumes "simulateTrip d now t rid tr = Inr None"
  shows "tripsLoop d now t rid (ts1 @ tr # ts2) acc = tripsLoop d now t rid (ts1 @ ts2) acc"
  using assms by (simp add: tripsLoop_append split: sum.splits)

lemma activeTrips_skip:
  assumes "simulateTrip d now t rid tr = Inr None"
    "schedule d = pre @ (rid, ts1 @ tr # ts2) # post"
  shows "activeTrips (Some d) now t
         = activeTrips (Some (d\<lparr>schedule := pre @ (rid, ts1 @ ts2) # post\<rparr>)) now t"
  using assms
  by (simp add: activeTrips_def routesLoop_schedule tripsLoop_schedule routesLoop_append
        tripsLoop_skip split: sum.splits)





subsection \<open>The cases of the engine\<close>




lemma moving_first_match:
  assumes act: "isServiceActive (serviceId tr) (calendar d) now"
    and i: "Suc i < length (stops tr)" and reach: "scan_reaches t (stops tr) i"
    and mv: "moving_at t (stops tr) i"
  shows "findSegment t (stops tr)
         = Some (MovingSeg (stops tr ! i) (stops tr ! Suc i)
                  (progressOf t (timeToSeconds (departure (stops tr ! i)))
                     (timeToSeconds (arrival (stops tr ! Suc i)))))"
  using findSegment_reach[OF i reach] mv by simp

lemma unresolved_moving:
  assumes act: "isServiceActive (serviceId tr) (calendar d) now"
    and i: "Suc i < length (stops tr)" and reach: "scan_reaches t (stops tr) i"
    and mv: "moving_at t (stops tr) i"
    and un: "stopsGet (stopTable d) (stopId (stops tr ! i)) = None
             \<or> stopsGet (stopTable d) (stopId (stops tr ! Suc i)) = None"
  shows "simulateTrip d now t rid tr = Inr None"
proof -
  have ne: "stops tr \<noteq> []" using i by auto
  have seg: "findSegment t (stops tr)
         = Some (MovingSeg (stops tr ! i) (stops tr ! Suc i)
                  (progressOf t (timeToSeconds (departure (stops tr ! i)))
                     (timeToSeconds (arrival (stops tr ! Suc i)))))"
    using act i reach mv by (rule moving_first_match)
  show ?thesis
  proof (cases "in_window t (stops tr)")
    case False
    then show ?thesis using ne by (rule simulateTrip_outside[rotated])
  next
    case True
    show ?thesis
      using un by (auto simp: simulateTrip_inside[OF act ne True] seg split: option.splits)
  qed
qed

lemma vehicle_resolved:
  assumes "simulateTrip d now t rid tr = Inr (Some v)"
  shows "\<exists>seg. findSegment t (stops tr) = Some seg
           \<and> segmentPosition d tr seg = Inr (Some (position v)) \<and> status v = segmentType seg"
  using simulateTrip_Some[OF assms] by (auto simp: vehicle_of_def)



subsection \<open>The example trip\<close>

lemma ex_time_0759: "timeToSeconds ''07:59:00'' = Some 28740"
  by (simp add: timeToSeconds_def Number_def dec_def digit_val_def is_digit_def)

lemma ex_time_0800: "timeToSeconds ''08:00:00'' = Some 28800"
  by (simp add: timeToSeconds_def Number_def dec_def digit_val_def is_digit_def)

lemma ex_time_0804: "timeToSeconds ''08:04:00'' = Some 29040"
  by (simp add: timeToSeconds_def Number_def dec_def digit_val_def is_digit_def)

lemma ex_time_0805: "timeToSeconds ''08:05:00'' = Some 29100"
  by (simp add: timeToSeconds_def Number_def dec_def digit_val_def is_digit_def)

lemma ex_time_0810: "timeToSeconds ''08:10:00'' = Some 29400"
  by (simp add: timeToSeconds_def Number_def dec_def digit_val_def is_digit_def)

lemmas ex_times = ex_time_0759 ex_time_0800 ex_time_0804 ex_time_0805 ex_time_0810


lemma ex_trip_active: "isServiceActive (serviceId ex_trip) (calendar ex_data) ex_now"
  by (simp add: isServiceActive_def ex_data_def ex_trip_def ex_calendar_def ex_service_def
      ex_now_str ex_now_day day_flag_def)

lemma ex_trip_ordered: "ordered_times (stops ex_trip)"
  by (simp add: ex_trip_def ex_st1_def ex_st2_def ex_st3_def arrivalSec_def departureSec_def ex_times)


lemma ex_segment_moving:
  "findSegment 29000 (stops ex_trip) = Some (MovingSeg ex_st1 ex_st2 (Fin (5 / 6)))"
  by (simp add: ex_trip_def ex_st1_def ex_st2_def ex_st3_def ex_times js_ge_def progressOf_def js_sub_def)

lemma ex_sim_29000:
  "simulateTrip ex_data ex_now 29000 ''R1'' ex_trip
   = Inr (Some \<lparr>v_trip = ex_trip, v_route = Some ex_route, position = (Fin 6, Fin 102),
                status = Moving\<rparr>)"
proof -
  have w: "in_window 29000 (stops ex_trip)"
    by (simp add: in_window_def ex_trip_def ex_st1_def ex_st2_def ex_st3_def arrivalSec_def
        departureSec_def ex_times js_ge_def)
  have ne: "stops ex_trip \<noteq> []" by (simp add: ex_trip_def)
  have pos: "segmentPosition ex_data ex_trip (MovingSeg ex_st1 ex_st2 (Fin (5 / 6)))
             = Inr (Some (Fin 6, Fin 102))"
    by (simp add: ex_data_def ex_stopTable_def ex_st1_def ex_st2_def ex_stop1_def
        interpolatePositionOnShape_def stopsGet_entry)
  have r: "find (\<lambda>r. route_id r = ''R1'') (routes ex_data) = Some ex_route"
    by (simp add: ex_data_def ex_route_def)
  show ?thesis
    by (simp add: simulateTrip_inside[OF ex_trip_active ne w] ex_segment_moving pos vehicle_of_def r
          del: segmentPosition.simps)
qed

lemma ex_route_found: "find (\<lambda>r. route_id r = ''R1'') (routes ex_data) = Some ex_route"
  by (simp add: ex_data_def ex_route_def)

lemma ex_nth:
  "stops ex_trip ! 0 = ex_st1" "stops ex_trip ! Suc 0 = ex_st2" "stops ex_trip ! Suc (Suc 0) = ex_st3"
  "length (stops ex_trip) = 3" "hd (stops ex_trip) = ex_st1" "last (stops ex_trip) = ex_st3"
  by (simp_all add: ex_trip_def)

lemma ex_st_times:
  "timeToSeconds (arrival ex_st1) = Some 28740" "timeToSeconds (departure ex_st1) = Some 28800"
  "timeToSeconds (arrival ex_st2) = Some 29040" "timeToSeconds (departure ex_st2) = Some 29100"
  "timeToSeconds (arrival ex_st3) = Some 29400" "timeToSeconds (departure ex_st3) = Some 29400"
  by (simp_all add: ex_st1_def ex_st2_def ex_st3_def ex_times)

lemma ex_stop_lookup:
  "stopTable ex_data (stopId ex_st1) = Some ex_stop1"
  "stopTable ex_data (stopId ex_st2) = Some ex_stop2"
  "stopTable ex_data (stopId ex_st3) = Some ex_stop3"
  by (simp_all add: ex_data_def ex_stopTable_def ex_st1_def ex_st2_def ex_st3_def)


lemma activeTrips_single:
  "schedule d = [(rid, [tr])] \<Longrightarrow>
   activeTrips (Some d) now t =
     (case simulateTrip d now t rid tr of
        Inl e \<Rightarrow> Inl e
      | Inr None \<Rightarrow> Inr []
      | Inr (Some v) \<Rightarrow> Inr [v])"
  by (simp add: activeTrips_def split: sum.splits option.splits)


subsection \<open>The claims about the engine\<close>



text \<open>The stop-times of the segment found are stop-times of the list.\<close>

lemma findSegment_members:
  "findSegment t ss = Some seg \<Longrightarrow>
   (\<forall>s1 s2 p. seg = MovingSeg s1 s2 p \<longrightarrow> s1 \<in> set ss \<and> s2 \<in> set ss)
   \<and> (\<forall>s. seg = DwellingSeg s \<longrightarrow> s \<in> set ss)"
proof (induction t ss rule: findSegment.induct)
  case (1 seconds s1 s2 rest)
  show ?case
  proof (cases "moving_at seconds (s1 # s2 # rest) 0 \<or> dwelling_at seconds (s1 # s2 # rest) 0")
    case True
    then show ?thesis
      using 1(2) by (auto simp: findSegment_head simp del: findSegment.simps split: if_splits)
  next
    case False
    then have f: "findSegment seconds (s2 # rest) = Some seg"
      using 1(2) by (simp add: findSegment_head del: findSegment.simps)
    have "(\<forall>s1 s2' p. seg = MovingSeg s1 s2' p \<longrightarrow> s1 \<in> set (s2 # rest) \<and> s2' \<in> set (s2 # rest))
          \<and> (\<forall>s. seg = DwellingSeg s \<longrightarrow> s \<in> set (s2 # rest))"
      using False 1(1) f
      by (simp add: moving_at_def dwelling_at_def arrivalSec_def departureSec_def)
    then show ?thesis by auto
  qed
qed simp_all

text \<open>
  When no stop id of the trip finds an inherited member, the position of the segment
  found is computed from entries of the stops table.
\<close>

lemma segmentPosition_entries:
  assumes "plain_ids d tr" "findSegment t (stops tr) = Some seg"
    "segmentPosition d tr seg = Inr (Some pos)"
  shows "(\<forall>s1 s2 p. seg = MovingSeg s1 s2 p
            \<longrightarrow> (\<exists>st1 st2. stopTable d (stopId s1) = Some st1
                    \<and> stopTable d (stopId s2) = Some st2
                    \<and> pos = interpolatePositionOnShape (shapes d (shapeId tr)) st1 st2 p))
         \<and> (\<forall>s. seg = DwellingSeg s
            \<longrightarrow> (\<exists>st. stopTable d (stopId s) = Some st \<and> pos = (Fin (lat st), Fin (lon st))))"
proof (cases seg)
  case (MovingSeg s1 s2 p)
  have "s1 \<in> set (stops tr)" "s2 \<in> set (stops tr)"
    using findSegment_members[OF assms(2)] MovingSeg by simp_all
  then have n: "stopsGet (stopTable d) (stopId s1) \<noteq> Some Member"
    "stopsGet (stopTable d) (stopId s2) \<noteq> Some Member"
    using assms(1) by (simp_all add: plain_ids_def list_all_iff)
  obtain v1 v2 where v: "stopsGet (stopTable d) (stopId s1) = Some v1"
    "stopsGet (stopTable d) (stopId s2) = Some v2"
    using assms(3) MovingSeg by (auto split: option.splits)
  obtain st1 st2 where r: "v1 = Record st1" "v2 = Record st2"
    using n v by (cases v1; cases v2) simp_all
  have "stopTable d (stopId s1) = Some st1" "stopTable d (stopId s2) = Some st2"
    using v r by (simp_all add: stopsGet_Record)
  moreover have "pos = interpolatePositionOnShape (shapes d (shapeId tr)) st1 st2 p"
    using assms(3) MovingSeg v r by simp
  ultimately show ?thesis using MovingSeg by simp
next
  case (DwellingSeg s)
  have "s \<in> set (stops tr)"
    using findSegment_members[OF assms(2)] DwellingSeg by simp
  then have n: "stopsGet (stopTable d) (stopId s) \<noteq> Some Member"
    using assms(1) by (simp add: plain_ids_def list_all_iff)
  obtain v where v: "stopsGet (stopTable d) (stopId s) = Some v"
    using assms(3) DwellingSeg by (auto split: option.splits)
  obtain st where r: "v = Record st" using n v by (cases v) simp_all
  have "stopTable d (stopId s) = Some st" using v r by (simp add: stopsGet_Record)
  moreover have "pos = (Fin (lat st), Fin (lon st))"
    using assms(3) DwellingSeg v r by simp
  ultimately show ?thesis using DwellingSeg by simp
qed

text \<open>
  With ordered times, the one time of the moving interval of the pair \<open>(i, i + 1)\<close> that
  the scan gives to an earlier pair is the arrival at stop \<open>i\<close>, when the vehicle leaves
  stop \<open>i\<close> at once: that time also ends the moving interval of the pair \<open>(i - 1, i)\<close>.
\<close>

lemma tie_not_reached:
  assumes "ordered_times ss" "0 < i" "Suc i < length ss" "moving_at t ss i"
    "\<not> js_lt (arrivalSec (ss ! i)) (Fin (real_of_int t))"
  shows "moving_at t ss (i - 1)" "\<not> scan_reaches t ss i"
proof -
  have i': "i < length ss" "Suc (i - 1) < length ss" "Suc (i - 1) = i"
    using assms(2,3) by simp_all
  have ad: "js_le (arrivalSec (ss ! i)) (departureSec (ss ! i))"
    using assms(1) i'(1) by (rule ordered_times_nth)
  have dt: "js_le (departureSec (ss ! i)) (Fin (real_of_int t))"
    using assms(4) by (simp add: moving_at_def js_ge_def)
  have at: "js_le (arrivalSec (ss ! i)) (Fin (real_of_int t))"
    using ad dt by (rule js_le_trans)
  have ta: "js_le (Fin (real_of_int t)) (arrivalSec (ss ! i))"
    using at assms(5) by (cases "arrivalSec (ss ! i)") auto
  have "js_le (departureSec (ss ! (i - 1))) (arrivalSec (ss ! Suc (i - 1)))"
    using assms(1) i'(2) by (rule ordered_times_step)
  then have "js_le (departureSec (ss ! (i - 1))) (arrivalSec (ss ! i))"
    using i'(3) by simp
  then have "js_le (departureSec (ss ! (i - 1))) (Fin (real_of_int t))"
    using at by (rule js_le_trans)
  then show m: "moving_at t ss (i - 1)"
    using ta i'(3) by (simp add: moving_at_def js_ge_def)
  show "\<not> scan_reaches t ss i"
  proof
    assume "scan_reaches t ss i"
    then have "\<not> moving_at t ss (i - 1)"
      using assms(2) by (simp add: scan_reaches_def)
    then show False using m by simp
  qed
qed

text \<open>
  Claim C9, as stated, fails. The example trip that does not wait at its second stop is
  at 08:04:00 (29040) within the moving interval \<open>[departure(1), arrival(2)]\<close> of its
  second and third stops, and the third stop is not in the stops table; but the scan
  stops at the first pair, whose moving interval \<open>[departure(0), arrival(1)]\<close> ends at
  that time, both stops of the first pair are in the table, and the trip is not
  excluded: its vehicle is pushed, moving, at the position interpolated for the first
  pair.
\<close>

theorem unresolved_stop_tie_counterexample:
  "isServiceActive (serviceId ex_trip_through) (calendar ex_data_through) ex_now
   \<and> ordered_times (stops ex_trip_through)
   \<and> timeToSeconds (departure (stops ex_trip_through ! 1)) = Some 29040
   \<and> timeToSeconds (arrival (stops ex_trip_through ! 2)) = Some 29400
   \<and> moving_at 29040 (stops ex_trip_through) 1
   \<and> stopTable ex_data_through (stopId (stops ex_trip_through ! 2)) = None
   \<and> stopsGet (stopTable ex_data_through) (stopId (stops ex_trip_through ! 2)) = None
   \<and> simulateTrip ex_data_through ex_now 29040 ''R1'' ex_trip_through
       = Inr (Some \<lparr>v_trip = ex_trip_through, v_route = Some ex_route,
                    position = (Fin 6, Fin 102), status = Moving\<rparr>)
   \<and> activeTrips (Some ex_data_through) ex_now 29040
       = Inr [\<lparr>v_trip = ex_trip_through, v_route = Some ex_route,
               position = (Fin 6, Fin 102), status = Moving\<rparr>]"
proof -
  have nth: "stops ex_trip_through ! 0 = ex_st1"
    "stops ex_trip_through ! Suc 0 = ex_st2_through"
    "stops ex_trip_through ! Suc (Suc 0) = ex_st3" "stops ex_trip_through \<noteq> []"
    "last (stops ex_trip_through) = ex_st3" "stops ex_trip_through ! 2 = ex_st3"
    by (simp_all add: ex_trip_through_def)
  have tm: "timeToSeconds (arrival ex_st2_through) = Some 29040"
    "timeToSeconds (departure ex_st2_through) = Some 29040"
    by (simp_all add: ex_st2_through_def ex_times)
  have act: "isServiceActive (serviceId ex_trip_through) (calendar ex_data_through) ex_now"
    using ex_active by (simp add: ex_trip_through_def ex_data_through_def)
  have ord: "ordered_times (stops ex_trip_through)"
    by (simp add: ex_trip_through_def arrivalSec_def departureSec_def ex_st_times tm)
  have mv: "moving_at 29040 (stops ex_trip_through) 1"
    by (simp add: moving_at_def nth arrivalSec_def departureSec_def ex_st_times tm js_ge_def)
  have un: "stopTable ex_data_through (stopId (stops ex_trip_through ! 2)) = None"
    by (simp add: nth ex_data_through_def ex_st3_def)
  have un': "stopsGet (stopTable ex_data_through) (stopId (stops ex_trip_through ! 2)) = None"
    by (simp add: stopsGet_None nth ex_data_through_def ex_st3_def prototype_members_def)
  have w: "in_window 29040 (stops ex_trip_through)"
    by (simp add: in_window_def nth arrivalSec_def departureSec_def ex_st_times js_ge_def)
  have seg: "findSegment 29040 (stops ex_trip_through)
             = Some (MovingSeg ex_st1 ex_st2_through (Fin 1))"
    by (simp add: ex_trip_through_def ex_st_times tm js_ge_def progressOf_def js_sub_def)
  have pos: "segmentPosition ex_data_through ex_trip_through (MovingSeg ex_st1 ex_st2_through (Fin 1))
             = Inr (Some (Fin 6, Fin 102))"
    by (simp add: ex_data_through_def ex_trip_through_def ex_st1_def ex_st2_through_def
          stopsGet_entry interpolatePositionOnShape_def ex_stop1_def)
  have r: "find (\<lambda>r. route_id r = ''R1'') (routes ex_data_through) = Some ex_route"
    by (simp add: ex_data_through_def ex_route_def)
  have sim: "simulateTrip ex_data_through ex_now 29040 ''R1'' ex_trip_through
       = Inr (Some \<lparr>v_trip = ex_trip_through, v_route = Some ex_route,
                    position = (Fin 6, Fin 102), status = Moving\<rparr>)"
    by (simp add: simulateTrip_inside[OF act nth(4) w] seg pos vehicle_of_def r
          del: segmentPosition.simps)
  have sched: "schedule ex_data_through = [(''R1'', [ex_trip_through])]"
    by (simp add: ex_data_through_def)
  show ?thesis
    using act ord mv un un' sim
    by (simp add: activeTrips_single[OF sched] nth tm ex_st_times)
qed

text \<open>
  Claim C9, amended. When the service is active, the times of the trip are numbers, the
  scan selects the moving segment from stop \<open>i\<close> to stop \<open>i + 1\<close> (the time lies in
  \<open>[departure(i), arrival(i + 1)]\<close> and no earlier pair passes a test of the scan), and
  one of the two stops has no entry in the stops table and an id that is not the name
  of a member of \<open>Object.prototype\<close>, the trip pushes no vehicle and raises no error, and
  the active-vehicle list is the one of the schedule without the trip. With ordered
  times the scan selects that segment at every time of its interval when \<open>i\<close> is the
  first stop, and at every time after the arrival at stop \<open>i\<close> otherwise. A vehicle
  pushed for a trip none of whose stop ids finds an inherited member carries a position
  computed from entries of the stops table: interpolated between the two stops of the
  moving segment found, or the coordinates of the stop of the dwelling segment found.
\<close>

theorem unresolved_stop_excluded:
  "(isServiceActive (serviceId tr) (calendar d) now \<and> times_numeric (stops tr)
      \<and> Suc i < length (stops tr)
      \<and> scan_reaches t (stops tr) i \<and> moving_at t (stops tr) i
      \<and> ((stopTable d (stopId (stops tr ! i)) = None
            \<and> stopId (stops tr ! i) \<notin> set prototype_members)
          \<or> (stopTable d (stopId (stops tr ! Suc i)) = None
              \<and> stopId (stops tr ! Suc i) \<notin> set prototype_members))
      \<longrightarrow> simulateTrip d now t rid tr = Inr None
          \<and> (schedule d = pre @ (rid, ts1 @ tr # ts2) # post
               \<longrightarrow> activeTrips (Some d) now t
                     = activeTrips (Some (d\<lparr>schedule := pre @ (rid, ts1 @ ts2) # post\<rparr>)) now t))
   \<and> (ordered_times (stops tr) \<and> Suc i < length (stops tr)
        \<and> (i = 0 \<or> js_lt (arrivalSec (stops tr ! i)) (Fin (real_of_int t)))
      \<longrightarrow> scan_reaches t (stops tr) i)
   \<and> (simulateTrip d now t rid tr = Inr (Some v) \<and> plain_ids d tr
      \<longrightarrow> (\<exists>seg. findSegment t (stops tr) = Some seg \<and> status v = segmentType seg
                 \<and> segmentPosition d tr seg = Inr (Some (position v))
                 \<and> (\<forall>s1 s2 p. seg = MovingSeg s1 s2 p
                       \<longrightarrow> (\<exists>st1 st2. stopTable d (stopId s1) = Some st1
                               \<and> stopTable d (stopId s2) = Some st2
                               \<and> position v
                                   = interpolatePositionOnShape (shapes d (shapeId tr)) st1 st2 p))
                 \<and> (\<forall>s. seg = DwellingSeg s
                       \<longrightarrow> (\<exists>st. stopTable d (stopId s) = Some st
                               \<and> position v = (Fin (lat st), Fin (lon st))))))"
proof -
  have 1: "simulateTrip d now t rid tr = Inr None
          \<and> (schedule d = pre @ (rid, ts1 @ tr # ts2) # post
               \<longrightarrow> activeTrips (Some d) now t
                     = activeTrips (Some (d\<lparr>schedule := pre @ (rid, ts1 @ ts2) # post\<rparr>)) now t)"
    if h: "isServiceActive (serviceId tr) (calendar d) now" "Suc i < length (stops tr)"
      "scan_reaches t (stops tr) i" "moving_at t (stops tr) i"
      "(stopTable d (stopId (stops tr ! i)) = None
            \<and> stopId (stops tr ! i) \<notin> set prototype_members)
          \<or> (stopTable d (stopId (stops tr ! Suc i)) = None
              \<and> stopId (stops tr ! Suc i) \<notin> set prototype_members)"
  proof -
    have "stopsGet (stopTable d) (stopId (stops tr ! i)) = None
          \<or> stopsGet (stopTable d) (stopId (stops tr ! Suc i)) = None"
      using h(5) by (simp add: stopsGet_None)
    with h(1-4) have "simulateTrip d now t rid tr = Inr None"
      by (rule unresolved_moving)
    then show ?thesis by (simp add: activeTrips_skip)
  qed
  have 2: "scan_reaches t (stops tr) i"
    if h: "ordered_times (stops tr)" "Suc i < length (stops tr)"
      "i = 0 \<or> js_lt (arrivalSec (stops tr ! i)) (Fin (real_of_int t))"
  proof (cases "i = 0")
    case True
    then show ?thesis by (simp add: scan_reaches_def)
  next
    case False
    then have "js_lt (arrivalSec (stops tr ! i)) (Fin (real_of_int t))" using h(3) by simp
    then show ?thesis using h(1,2) by (intro ordered_scan_reaches) simp_all
  qed
  have 3: "\<exists>seg. findSegment t (stops tr) = Some seg \<and> status v = segmentType seg
                 \<and> segmentPosition d tr seg = Inr (Some (position v))
                 \<and> (\<forall>s1 s2 p. seg = MovingSeg s1 s2 p
                       \<longrightarrow> (\<exists>st1 st2. stopTable d (stopId s1) = Some st1
                               \<and> stopTable d (stopId s2) = Some st2
                               \<and> position v
                                   = interpolatePositionOnShape (shapes d (shapeId tr)) st1 st2 p))
                 \<and> (\<forall>s. seg = DwellingSeg s
                       \<longrightarrow> (\<exists>st. stopTable d (stopId s) = Some st
                               \<and> position v = (Fin (lat st), Fin (lon st))))"
    if h: "simulateTrip d now t rid tr = Inr (Some v)" "plain_ids d tr"
  proof -
    from vehicle_resolved[OF h(1)] obtain seg where seg:
      "findSegment t (stops tr) = Some seg" "segmentPosition d tr seg = Inr (Some (position v))"
      "status v = segmentType seg" by blast
    show ?thesis
      using seg segmentPosition_entries[OF h(2) seg(1,2)] by blast
  qed
  show ?thesis using 1 2 3 by blast
qed

text \<open>
  The witness: the example data without stop \<open>S3\<close>, at 08:06:40 (29200), between the
  departure from \<open>S2\<close> and the arrival at \<open>S3\<close>; and the vehicle of the example data at
  08:03:20 (29000), whose position is interpolated between the entries of \<open>S1\<close> and
  \<open>S2\<close>.
\<close>

theorem unresolved_stop_excluded_witness:
  "isServiceActive (serviceId ex_trip)
      (calendar (ex_data\<lparr>stopTable := [''S1'' \<mapsto> ex_stop1, ''S2'' \<mapsto> ex_stop2]\<rparr>)) ex_now
   \<and> times_numeric (stops ex_trip) \<and> ordered_times (stops ex_trip)
   \<and> js_lt (arrivalSec (stops ex_trip ! 1)) (Fin 29200)
   \<and> scan_reaches 29200 (stops ex_trip) 1 \<and> moving_at 29200 (stops ex_trip) 1
   \<and> stopTable (ex_data\<lparr>stopTable := [''S1'' \<mapsto> ex_stop1, ''S2'' \<mapsto> ex_stop2]\<rparr>)
        (stopId (stops ex_trip ! 2)) = None
   \<and> stopId (stops ex_trip ! 2) \<notin> set prototype_members
   \<and> simulateTrip (ex_data\<lparr>stopTable := [''S1'' \<mapsto> ex_stop1, ''S2'' \<mapsto> ex_stop2]\<rparr>)
        ex_now 29200 ''R1'' ex_trip = Inr None
   \<and> activeTrips (Some (ex_data\<lparr>stopTable := [''S1'' \<mapsto> ex_stop1, ''S2'' \<mapsto> ex_stop2]\<rparr>))
        ex_now 29200 = Inr []
   \<and> plain_ids ex_data ex_trip
   \<and> simulateTrip ex_data ex_now 29000 ''R1'' ex_trip
       = Inr (Some \<lparr>v_trip = ex_trip, v_route = Some ex_route, position = (Fin 6, Fin 102),
                    status = Moving\<rparr>)
   \<and> findSegment 29000 (stops ex_trip) = Some (MovingSeg ex_st1 ex_st2 (Fin (5 / 6)))
   \<and> stopTable ex_data (stopId ex_st1) = Some ex_stop1
   \<and> stopTable ex_data (stopId ex_st2) = Some ex_stop2
   \<and> interpolatePositionOnShape (shapes ex_data (shapeId ex_trip)) ex_stop1 ex_stop2 (Fin (5 / 6))
       = (Fin 6, Fin 102)"
proof -
  let ?d = "ex_data\<lparr>stopTable := [''S1'' \<mapsto> ex_stop1, ''S2'' \<mapsto> ex_stop2]\<rparr>"
  let ?v = "\<lparr>v_trip = ex_trip, v_route = Some ex_route, position = (Fin 6, Fin 102),
             status = Moving\<rparr>"
  have act: "isServiceActive (serviceId ex_trip) (calendar ?d) ex_now"
    using ex_trip_active by simp
  have len: "Suc 1 < length (stops ex_trip)" by (simp add: ex_nth)
  have num: "times_numeric (stops ex_trip)"
    by (simp add: times_numeric_def ex_trip_def ex_st_times)
  have mv: "moving_at 29200 (stops ex_trip) 1"
    by (simp add: moving_at_def ex_nth arrivalSec_def departureSec_def ex_st_times js_ge_def)
  have after: "js_lt (arrivalSec (stops ex_trip ! 1)) (Fin 29200)"
    by (simp add: ex_nth arrivalSec_def ex_st_times)
  have reach: "scan_reaches 29200 (stops ex_trip) 1"
    using unresolved_stop_excluded[of ex_trip ?d ex_now 1 29200] ex_trip_ordered len after
    by simp
  have un: "stopTable ?d (stopId (stops ex_trip ! 2)) = None"
    by (simp add: ex_trip_def ex_st3_def)
  have id: "stopId (stops ex_trip ! 2) \<notin> set prototype_members"
    by (simp add: ex_trip_def ex_st3_def prototype_members_def)
  have un': "stopTable ?d (stopId (stops ex_trip ! Suc 1)) = None"
    "stopId (stops ex_trip ! Suc 1) \<notin> set prototype_members"
    using un id by (simp_all add: numeral_2_eq_2)
  have none: "simulateTrip ?d ex_now 29200 ''R1'' ex_trip = Inr None"
    using unresolved_stop_excluded[of ex_trip ?d ex_now 1 29200 "''R1''"] act num len reach mv un'
    by simp
  have sched: "schedule ?d = [(''R1'', [ex_trip])]" by (simp add: ex_data_def)
  have all: "activeTrips (Some ?d) ex_now 29200 = Inr []"
    by (simp add: activeTrips_single[OF sched] none)
  have plain: "plain_ids ex_data ex_trip"
    by (simp add: plain_ids_def ex_trip_def ex_stop_lookup stopsGet_entry)
  have pos: "interpolatePositionOnShape (shapes ex_data (shapeId ex_trip)) ex_stop1 ex_stop2
               (Fin (5 / 6)) = (Fin 6, Fin 102)"
    using unresolved_stop_excluded[of ex_trip ex_data ex_now 0 29000 "''R1''" "[]" "[]" "[]" "[]" ?v]
      ex_sim_29000 ex_segment_moving plain ex_stop_lookup
    by simp
  show ?thesis
    using act num ex_trip_ordered after reach mv un id none all plain ex_sim_29000
      ex_segment_moving ex_stop_lookup pos
    by simp
qed

text \<open>
  What the amended claim leaves out: a stop id without an entry in the stops table that
  is the name of a member of \<open>Object.prototype\<close>. The engine takes the member for a stop.
  As the first stop of the moving segment found it gives the vehicle the position
  \<open>[undefined, undefined]\<close> when the trip has no shape, and ends the engine with a
  \<open>TypeError\<close> when it has one; as the second stop it gives the vehicle the coordinates
  of the first.
\<close>

lemma inherited_member_taken_for_stop:
  "simulateTrip ex_data ex_now 29000 ''R1''
     (ex_trip\<lparr>stops := [ex_st1\<lparr>stopId := ''constructor''\<rparr>, ex_st2, ex_st3]\<rparr>)
   = Inr (Some \<lparr>v_trip = ex_trip\<lparr>stops := [ex_st1\<lparr>stopId := ''constructor''\<rparr>, ex_st2, ex_st3]\<rparr>,
                v_route = Some ex_route, position = (Undefined, Undefined), status = Moving\<rparr>)"
  "simulateTrip ex_data_shape ex_now 29000 ''R1''
     (ex_trip\<lparr>stops := [ex_st1\<lparr>stopId := ''constructor''\<rparr>, ex_st2, ex_st3]\<rparr>)
   = Inl TypeError"
  "simulateTrip ex_data ex_now 29200 ''R1''
     (ex_trip\<lparr>stops := [ex_st1, ex_st2, ex_st3\<lparr>stopId := ''constructor''\<rparr>]\<rparr>)
   = Inr (Some \<lparr>v_trip = ex_trip\<lparr>stops := [ex_st1, ex_st2, ex_st3\<lparr>stopId := ''constructor''\<rparr>]\<rparr>,
                v_route = Some ex_route, position = (Fin 7, Fin 103), status = Moving\<rparr>)"
proof -
  let ?a = "ex_trip\<lparr>stops := [ex_st1\<lparr>stopId := ''constructor''\<rparr>, ex_st2, ex_st3]\<rparr>"
  let ?b = "ex_trip\<lparr>stops := [ex_st1, ex_st2, ex_st3\<lparr>stopId := ''constructor''\<rparr>]\<rparr>"
  have m: "stopsGet ex_stopTable ''constructor'' = Some Member"
    by (simp add: stopsGet_Member ex_stopTable_def prototype_members_def)
  have r: "stopsGet ex_stopTable ''S2'' = Some (Record ex_stop2)"
    by (simp add: stopsGet_Record ex_stopTable_def)
  have act: "isServiceActive (serviceId ?a) (calendar ex_data) ex_now"
    "isServiceActive (serviceId ?a) (calendar ex_data_shape) ex_now"
    "isServiceActive (serviceId ?b) (calendar ex_data) ex_now"
    using ex_trip_active by (simp_all add: ex_data_shape_def)
  have ne: "stops ?a \<noteq> []" "stops ?b \<noteq> []" by simp_all
  have w: "in_window 29000 (stops ?a)" "in_window 29200 (stops ?b)"
    by (simp_all add: in_window_def arrivalSec_def departureSec_def ex_st_times js_ge_def)
  have seg: "findSegment 29000 (stops ?a)
             = Some (MovingSeg (ex_st1\<lparr>stopId := ''constructor''\<rparr>) ex_st2 (Fin (5 / 6)))"
    "findSegment 29200 (stops ?b)
     = Some (MovingSeg ex_st2 (ex_st3\<lparr>stopId := ''constructor''\<rparr>) (Fin (1 / 3)))"
    by (simp_all add: ex_st_times js_ge_def progressOf_def js_sub_def)
  have pa: "segmentPosition ex_data ?a (MovingSeg (ex_st1\<lparr>stopId := ''constructor''\<rparr>) ex_st2 (Fin (5 / 6)))
            = Inr (Some (Undefined, Undefined))"
    by (simp add: ex_data_def ex_trip_def m r ex_st2_def)
  have pa': "segmentPosition ex_data_shape ?a
               (MovingSeg (ex_st1\<lparr>stopId := ''constructor''\<rparr>) ex_st2 (Fin (5 / 6)))
             = Inl TypeError"
    by (simp add: ex_data_shape_def ex_data_def ex_trip_def m r ex_st2_def ex_shape_def)
  have pb: "segmentPosition ex_data ?b (MovingSeg ex_st2 (ex_st3\<lparr>stopId := ''constructor''\<rparr>) (Fin (1 / 3)))
            = Inr (Some (Fin 7, Fin 103))"
    by (simp add: ex_data_def ex_trip_def m r ex_st2_def ex_stop2_def)
  have rt: "find (\<lambda>r. route_id r = ''R1'') (routes ex_data_shape) = Some ex_route"
    using ex_route_found by (simp add: ex_data_shape_def)
  show "simulateTrip ex_data ex_now 29000 ''R1'' ?a
        = Inr (Some \<lparr>v_trip = ?a, v_route = Some ex_route, position = (Undefined, Undefined),
                     status = Moving\<rparr>)"
    unfolding simulateTrip_inside[OF act(1) ne(1) w(1)] seg(1)
    by (simp add: pa vehicle_of_def ex_route_found del: segmentPosition.simps)
  show "simulateTrip ex_data_shape ex_now 29000 ''R1'' ?a = Inl TypeError"
    unfolding simulateTrip_inside[OF act(2) ne(1) w(1)] seg(1)
    by (simp add: pa' del: segmentPosition.simps)
  show "simulateTrip ex_data ex_now 29200 ''R1'' ?b
        = Inr (Some \<lparr>v_trip = ?b, v_route = Some ex_route, position = (Fin 7, Fin 103),
                     status = Moving\<rparr>)"
    unfolding simulateTrip_inside[OF act(3) ne(2) w(2)] seg(2)
    by (simp add: pb vehicle_of_def ex_route_found del: segmentPosition.simps)
qed






end
